theory Spec2Isabelle
  imports Complex_Main "HOL-Library.Word"
begin

unbundle bit_operations_syntax

section \<open>Machine types and faults\<close>

type_synonym u8 = "8 word"
type_synonym u32 = "32 word"

text \<open>
  The C functions return \<open>int\<close> codes. Behaviour that C leaves undefined (a division by
  zero, a \<open>memcpy\<close> beyond an array, signed overflow) and the exception of the managed
  wrapper are values of the type \<open>fault\<close>: a call yields \<open>Inl\<close> of a fault or \<open>Inr\<close> of
  its ordinary result.
\<close>

datatype fault = DivByZero | OutOfBounds | IntOverflow | NullDeref | ArgumentException

section \<open>Packed wire records\<close>

text \<open>
  The structs are declared under \<open>#pragma pack(push, 1)\<close> and handed to the USB transfer
  functions as raw storage, so the wire format is the object representation: the fields in
  declaration order, without padding, each \<open>uint32_t\<close> as four bytes in host order. The
  host is taken to be little-endian.
\<close>

definition le32 :: "u32 \<Rightarrow> u8 list" where
  "le32 v = [ucast v, ucast (drop_bit 8 v), ucast (drop_bit 16 v), ucast (drop_bit 24 v)]"

definition rd32 :: "u8 list \<Rightarrow> nat \<Rightarrow> u32" where
  "rd32 bs off =
     ucast (bs ! off) OR push_bit 8 (ucast (bs ! (off + 1)))
       OR push_bit 16 (ucast (bs ! (off + 2))) OR push_bit 24 (ucast (bs ! (off + 3)))"

record gs_host_config =
  byte_order :: u32

record gs_device_config =
  reserved1 :: u8
  reserved2 :: u8
  reserved3 :: u8
  icount :: u8
  sw_version :: u32
  hw_version :: u32

record gs_identify_mode =
  im_mode :: u32

record gs_device_bt_const =
  feature :: u32
  fclk_can :: u32
  tseg1_min :: u32
  tseg1_max :: u32
  tseg2_min :: u32
  tseg2_max :: u32
  sjw_max :: u32
  brp_min :: u32
  brp_max :: u32
  brp_inc :: u32

record gs_device_bittiming =
  prop_seg :: u32
  phase_seg1 :: u32
  phase_seg2 :: u32
  sjw :: u32
  brp :: u32

record gs_device_mode =
  dm_mode :: u32
  dm_flags :: u32

record gs_host_frame =
  echo_id :: u32
  can_id :: u32
  can_dlc :: u8
  channel :: u8
  flags :: u8
  reserved :: u8
  data :: "u8 list"
  timestamp_us :: u32

text \<open>The object representation of each struct, and the struct read back from storage.\<close>

definition gs_host_config_bytes :: "gs_host_config \<Rightarrow> u8 list" where
  "gs_host_config_bytes c = le32 (byte_order c)"

definition gs_host_config_of_bytes :: "u8 list \<Rightarrow> gs_host_config" where
  "gs_host_config_of_bytes bs = \<lparr>byte_order = rd32 bs 0\<rparr>"

definition gs_device_config_bytes :: "gs_device_config \<Rightarrow> u8 list" where
  "gs_device_config_bytes c =
     [reserved1 c, reserved2 c, reserved3 c, icount c] @ le32 (sw_version c) @ le32 (hw_version c)"

definition gs_device_config_of_bytes :: "u8 list \<Rightarrow> gs_device_config" where
  "gs_device_config_of_bytes bs =
     \<lparr>reserved1 = bs ! 0, reserved2 = bs ! 1, reserved3 = bs ! 2, icount = bs ! 3,
      sw_version = rd32 bs 4, hw_version = rd32 bs 8\<rparr>"

definition gs_identify_mode_bytes :: "gs_identify_mode \<Rightarrow> u8 list" where
  "gs_identify_mode_bytes m = le32 (im_mode m)"

definition gs_identify_mode_of_bytes :: "u8 list \<Rightarrow> gs_identify_mode" where
  "gs_identify_mode_of_bytes bs = \<lparr>im_mode = rd32 bs 0\<rparr>"

definition gs_device_bt_const_bytes :: "gs_device_bt_const \<Rightarrow> u8 list" where
  "gs_device_bt_const_bytes c =
     le32 (feature c) @ le32 (fclk_can c) @ le32 (tseg1_min c) @ le32 (tseg1_max c)
       @ le32 (tseg2_min c) @ le32 (tseg2_max c) @ le32 (sjw_max c) @ le32 (brp_min c)
       @ le32 (brp_max c) @ le32 (brp_inc c)"

definition gs_device_bt_const_of_bytes :: "u8 list \<Rightarrow> gs_device_bt_const" where
  "gs_device_bt_const_of_bytes bs =
     \<lparr>feature = rd32 bs 0, fclk_can = rd32 bs 4, tseg1_min = rd32 bs 8, tseg1_max = rd32 bs 12,
      tseg2_min = rd32 bs 16, tseg2_max = rd32 bs 20, sjw_max = rd32 bs 24, brp_min = rd32 bs 28,
      brp_max = rd32 bs 32, brp_inc = rd32 bs 36\<rparr>"

definition gs_device_bittiming_bytes :: "gs_device_bittiming \<Rightarrow> u8 list" where
  "gs_device_bittiming_bytes t =
     le32 (prop_seg t) @ le32 (phase_seg1 t) @ le32 (phase_seg2 t) @ le32 (sjw t) @ le32 (brp t)"

definition gs_device_bittiming_of_bytes :: "u8 list \<Rightarrow> gs_device_bittiming" where
  "gs_device_bittiming_of_bytes bs =
     \<lparr>prop_seg = rd32 bs 0, phase_seg1 = rd32 bs 4, phase_seg2 = rd32 bs 8, sjw = rd32 bs 12,
      brp = rd32 bs 16\<rparr>"

definition gs_device_mode_bytes :: "gs_device_mode \<Rightarrow> u8 list" where
  "gs_device_mode_bytes m = le32 (dm_mode m) @ le32 (dm_flags m)"

definition gs_device_mode_of_bytes :: "u8 list \<Rightarrow> gs_device_mode" where
  "gs_device_mode_of_bytes bs = \<lparr>dm_mode = rd32 bs 0, dm_flags = rd32 bs 4\<rparr>"

text \<open>
  \<open>data\<close> is the member \<open>uint8_t data[8]\<close>: the representation takes exactly eight bytes
  of it (a shorter list is filled with zeros, a longer one cut).
\<close>

definition gs_host_frame_bytes :: "gs_host_frame \<Rightarrow> u8 list" where
  "gs_host_frame_bytes f =
     le32 (echo_id f) @ le32 (can_id f) @ [can_dlc f, channel f, flags f, reserved f]
       @ take 8 (data f @ replicate 8 0) @ le32 (timestamp_us f)"

definition gs_host_frame_of_bytes :: "u8 list \<Rightarrow> gs_host_frame" where
  "gs_host_frame_of_bytes bs =
     \<lparr>echo_id = rd32 bs 0, can_id = rd32 bs 4, can_dlc = bs ! 8, channel = bs ! 9,
      flags = bs ! 10, reserved = bs ! 11, data = take 8 (drop 12 bs),
      timestamp_us = rd32 bs 20\<rparr>"

text \<open>\<open>gs_host_frame frame = { 0 }\<close>: every member zero.\<close>

definition zero_frame :: gs_host_frame where
  "zero_frame =
     \<lparr>echo_id = 0, can_id = 0, can_dlc = 0, channel = 0, flags = 0, reserved = 0,
      data = replicate 8 0, timestamp_us = 0\<rparr>"

section \<open>The USB transport\<close>

text \<open>
  libusb is outside the library. Its answers are given by the \<open>world\<close>: the outcome of
  the n-th transfer on each pipe, together with what the library has sent so far. An
  inbound transfer answers with the libusb status and the bytes the device delivered; an
  outbound bulk transfer with the status and the count libusb stores in \<open>transferred\<close>.
  \<open>indet\<close> is the content of storage that C leaves uninitialised.
\<close>

datatype xfer = Xfer (status: int) (payload: "u8 list")

datatype gs_usb_breq =
    GS_USB_BREQ_HOST_FORMAT
  | GS_USB_BREQ_BITTIMING
  | GS_USB_BREQ_MODE
  | GS_USB_BREQ_BERR
  | GS_USB_BREQ_BT_CONST
  | GS_USB_BREQ_DEVICE_CONFIG
  | GS_USB_BREQ_TIMESTAMP
  | GS_USB_BREQ_IDENTIFY

record world =
  indet :: "nat \<Rightarrow> u8"
  bulk_in :: "nat \<Rightarrow> xfer"
  rx_count :: nat
  bulk_out :: "nat \<Rightarrow> int \<times> nat"
  tx_log :: "u8 list list"
  ctrl_in :: "nat \<Rightarrow> xfer"
  ctrl_in_log :: "gs_usb_breq list"
  ctrl_out :: "nat \<Rightarrow> int"
  ctrl_out_log :: "(gs_usb_breq \<times> u8 list) list"
  close_log :: "nat list"
  exit_log :: "nat list"

text \<open>The global variables of the library; a pointer is \<open>None\<close> when it is \<open>NULL\<close>.\<close>

record lib_state =
  usb_context :: "nat option"
  device_handle :: "nat option"
  is_initialized :: int

text \<open>
  \<open>control_in\<close> and \<open>control_out\<close> return what \<open>libusb_control_transfer\<close> returns: the
  number of bytes transferred, or a negative error. An inbound transfer overwrites the
  first bytes of the buffer it is given, at most \<open>sz\<close> of them.
\<close>

definition control_in :: "world \<Rightarrow> gs_usb_breq \<Rightarrow> u8 list \<Rightarrow> nat \<Rightarrow> int \<times> u8 list \<times> world" where
  "control_in w request buf sz =
     (case ctrl_in w (length (ctrl_in_log w)) of
        Xfer st bs \<Rightarrow>
          let got = take sz bs
          in (if st < 0 then st else int (length got),
              got @ drop (length got) buf,
              w\<lparr>ctrl_in_log := ctrl_in_log w @ [request]\<rparr>))"

definition control_out :: "world \<Rightarrow> gs_usb_breq \<Rightarrow> u8 list \<Rightarrow> int \<times> world" where
  "control_out w request bytes =
     (ctrl_out w (length (ctrl_out_log w)),
      w\<lparr>ctrl_out_log := ctrl_out_log w @ [(request, bytes)]\<rparr>)"

text \<open>\<open>data_in\<close> and \<open>data_out\<close>: \<open>return ret >= 0 ? transferred : ret;\<close>\<close>

definition data_in :: "world \<Rightarrow> u8 list \<Rightarrow> nat \<Rightarrow> int \<times> u8 list \<times> world" where
  "data_in w buf sz =
     (case bulk_in w (rx_count w) of
        Xfer ret bs \<Rightarrow>
          let got = take sz bs
          in (if ret \<ge> 0 then int (length got) else ret,
              got @ drop (length got) buf,
              w\<lparr>rx_count := Suc (rx_count w)\<rparr>))"

definition data_out :: "world \<Rightarrow> u8 list \<Rightarrow> int \<times> world" where
  "data_out w bytes =
     (case bulk_out w (length (tx_log w)) of
        (ret, transferred) \<Rightarrow>
          (if ret \<ge> 0 then int transferred else ret, w\<lparr>tx_log := tx_log w @ [bytes]\<rparr>))"

text \<open>
  \<open>memcpy(dst, src, n)\<close> on arrays of known extent: copying more than either array holds
  is undefined in C and a fault here.
\<close>

definition memcpy :: "u8 list \<Rightarrow> u8 list \<Rightarrow> nat \<Rightarrow> fault + u8 list" where
  "memcpy dst src n =
     (if n \<le> length src \<and> n \<le> length dst then Inr (take n src @ drop n dst)
      else Inl OutOfBounds)"

section \<open>The exported functions\<close>

definition usb_can_cleanup :: "lib_state \<Rightarrow> world \<Rightarrow> lib_state \<times> world" where
  "usb_can_cleanup s w =
     (let (s1, w1) = (case device_handle s of
                        Some h \<Rightarrow> (s\<lparr>device_handle := None\<rparr>, w\<lparr>close_log := close_log w @ [h]\<rparr>)
                      | None \<Rightarrow> (s, w));
          (s2, w2) = (case usb_context s1 of
                        Some c \<Rightarrow> (s1\<lparr>usb_context := None\<rparr>, w1\<lparr>exit_log := exit_log w1 @ [c]\<rparr>)
                      | None \<Rightarrow> (s1, w1))
      in (s2\<lparr>is_initialized := 0\<rparr>, w2))"

text \<open>\<open>bitrate * 16\<close> is a \<open>uint32_t\<close> product and wraps; dividing by zero is undefined.\<close>

definition usb_can_set_bitrate :: "lib_state \<Rightarrow> world \<Rightarrow> u32 \<Rightarrow> fault + (int \<times> world)" where
  "usb_can_set_bitrate s w bitrate =
     (if device_handle s = None then Inr (-1, w)
      else
        (case control_in w GS_USB_BREQ_BT_CONST (map (indet w) [0..<40]) 40 of
          (ret, buf, w1) \<Rightarrow>
            if ret < 0 then Inr (ret, w1)
            else
              let bt_const = gs_device_bt_const_of_bytes buf
              in if bitrate * 16 = 0 then Inl DivByZero
                 else
                   let bit_timing =
                         \<lparr>prop_seg = 0, phase_seg1 = 13, phase_seg2 = 2, sjw = 1,
                          brp = fclk_can bt_const div (bitrate * 16)\<rparr>
                   in Inr (control_out w1 GS_USB_BREQ_BITTIMING
                             (gs_device_bittiming_bytes bit_timing))))"

definition GS_CAN_MODE_RESET :: u32 where "GS_CAN_MODE_RESET = 0"
definition GS_CAN_MODE_START :: u32 where "GS_CAN_MODE_START = 1"
definition GS_CAN_MODE_HW_TIMESTAMP_FLAG :: u32 where "GS_CAN_MODE_HW_TIMESTAMP_FLAG = push_bit 4 1"
definition GS_CAN_MODE_LOOP_BACK_FLAG :: u32 where "GS_CAN_MODE_LOOP_BACK_FLAG = push_bit 1 1"

definition usb_can_start :: "lib_state \<Rightarrow> world \<Rightarrow> int \<Rightarrow> int \<times> world" where
  "usb_can_start s w enable_loopback =
     (if device_handle s = None then (-1, w)
      else
        let mode = \<lparr>dm_mode = GS_CAN_MODE_START, dm_flags = GS_CAN_MODE_HW_TIMESTAMP_FLAG\<rparr>;
            mode = (if enable_loopback \<noteq> 0
                    then mode\<lparr>dm_flags := dm_flags mode OR GS_CAN_MODE_LOOP_BACK_FLAG\<rparr>
                    else mode)
        in control_out w GS_USB_BREQ_MODE (gs_device_mode_bytes mode))"

definition usb_can_stop :: "lib_state \<Rightarrow> world \<Rightarrow> int \<times> world" where
  "usb_can_stop s w =
     (if device_handle s = None then (-1, w)
      else
        let mode = \<lparr>dm_mode = GS_CAN_MODE_RESET, dm_flags = 0\<rparr>
        in control_out w GS_USB_BREQ_MODE (gs_device_mode_bytes mode))"

text \<open>
  A pointer argument is \<open>None\<close> when it is \<open>NULL\<close>, otherwise the array or object it
  points to; a function that writes through its arguments returns what they point to
  afterwards.
\<close>

definition usb_can_send_frame ::
    "lib_state \<Rightarrow> world \<Rightarrow> u32 \<Rightarrow> u8 list option \<Rightarrow> u8 \<Rightarrow> fault + (int \<times> world)" where
  "usb_can_send_frame s w cid dat len =
     (case dat of
        None \<Rightarrow> Inr (-1, w)
      | Some src \<Rightarrow>
          if device_handle s = None \<or> len > 8 then Inr (-1, w)
          else
            let frame = zero_frame\<lparr>can_id := cid, can_dlc := len\<rparr>
            in (case memcpy (data frame) src (unat len) of
                  Inl f \<Rightarrow> Inl f
                | Inr d \<Rightarrow> Inr (data_out w (gs_host_frame_bytes (frame\<lparr>data := d\<rparr>)))))"

record rx_args =
  p_can_id :: "u32 option"
  p_data :: "u8 list option"
  p_length :: "u8 option"
  p_timestamp :: "u32 option"

definition usb_can_receive_frame ::
    "lib_state \<Rightarrow> world \<Rightarrow> rx_args \<Rightarrow> fault + (int \<times> rx_args \<times> world)" where
  "usb_can_receive_frame s w a =
     (case p_data a of
        None \<Rightarrow> Inr (-1, a, w)
      | Some dst \<Rightarrow>
          if device_handle s = None \<or> p_can_id a = None \<or> p_length a = None
               \<or> p_timestamp a = None
          then Inr (-1, a, w)
          else
            (case data_in w (gs_host_frame_bytes zero_frame) 24 of
              (ret, buf, w1) \<Rightarrow>
                if ret < 0 then Inr (ret, a, w1)
                else
                  let frame = gs_host_frame_of_bytes buf
                  in (case memcpy dst (data frame) (unat (can_dlc frame)) of
                        Inl f \<Rightarrow> Inl f
                      | Inr d \<Rightarrow>
                          Inr (0,
                               \<lparr>p_can_id = Some (can_id frame), p_data = Some d,
                                p_length = Some (can_dlc frame),
                                p_timestamp = Some (timestamp_us frame)\<rparr>,
                               w1))))"

text \<open>
  The loop of \<open>usb_can_purge_rx_queue\<close> runs for as long as transfers succeed, so it need
  not return: \<open>None\<close> is the run that never ends. \<open>purged\<close> is an \<open>int\<close>; incrementing
  \<open>INT_MAX\<close> is undefined.
\<close>

partial_function (option) purge_loop :: "world \<Rightarrow> u8 list \<Rightarrow> int \<Rightarrow> (fault + (int \<times> world)) option" where
  "purge_loop w frame purged =
     (let r = data_in w frame 24
      in if fst r \<ge> 0
         then (if purged = 2147483647 then Some (Inl IntOverflow)
               else purge_loop (snd (snd r)) (fst (snd r)) (purged + 1))
         else Some (Inr (purged, snd (snd r))))"

definition usb_can_purge_rx_queue :: "lib_state \<Rightarrow> world \<Rightarrow> (fault + (int \<times> world)) option" where
  "usb_can_purge_rx_queue s w =
     (if device_handle s = None then Some (Inr (-1, w))
      else purge_loop w (map (indet w) [0..<24]) 0)"

text \<open>The locals \<open>can_id\<close>, \<open>timestamp\<close>, \<open>data[8]\<close> and \<open>length\<close>, uninitialised.\<close>

definition obd_locals :: "world \<Rightarrow> rx_args" where
  "obd_locals w =
     \<lparr>p_can_id = Some (rd32 (map (indet w) [0..<20]) 12),
      p_data = Some (map (indet w) [0..<8]),
      p_length = Some (indet w 8),
      p_timestamp = Some (rd32 (map (indet w) [0..<20]) 16)\<rparr>"

definition usb_can_read_obd_pid ::
    "lib_state \<Rightarrow> world \<Rightarrow> u8 \<Rightarrow> u8 list option \<Rightarrow> u8 option
       \<Rightarrow> fault + (int \<times> u8 list option \<times> u8 option \<times> world)" where
  "usb_can_read_obd_pid s w pid response_data response_length =
     (case (device_handle s, response_data, response_length) of
        (Some h, Some rd, Some rl) \<Rightarrow>
          (let request_data = [2, 1, pid, 0x55, 0x55, 0x55, 0x55, 0x55]
           in (case usb_can_send_frame s w 0x7DF (Some request_data) 8 of
                 Inl f \<Rightarrow> Inl f
               | Inr (ret, w1) \<Rightarrow>
                   if ret < 0 then Inr (ret, response_data, response_length, w1)
                   else
                     (case usb_can_receive_frame s w1 (obd_locals w) of
                        Inl f \<Rightarrow> Inl f
                      | Inr (ret, a1, w2) \<Rightarrow>
                          if ret < 0 then Inr (ret, response_data, response_length, w2)
                          else
                            (case usb_can_receive_frame s w2 a1 of
                               Inl f \<Rightarrow> Inl f
                             | Inr (ret, a2, w3) \<Rightarrow>
                                 if ret < 0 then Inr (ret, response_data, response_length, w3)
                                 else
                                   (case (p_data a2, p_length a2) of
                                      (Some dat, Some len) \<Rightarrow>
                                        if len \<ge> 3 \<and> dat ! 1 = 0x41 \<and> dat ! 2 = pid
                                        then
                                          (let rl' = len - 3
                                           in (case memcpy rd (drop 3 dat) (unat rl') of
                                                 Inl f \<Rightarrow> Inl f
                                               | Inr rd' \<Rightarrow> Inr (0, Some rd', Some rl', w3)))
                                        else Inr (-1, response_data, response_length, w3)
                                    | _ \<Rightarrow> Inl NullDeref)))))
      | _ \<Rightarrow> Inr (-1, response_data, response_length, w))"

section \<open>The managed wrapper\<close>

text \<open>
  The class \<open>UsbCanDevice\<close> calls the exported functions through P/Invoke. A \<open>byte[]\<close>
  result is \<open>None\<close> when the method returns \<open>null\<close>.
\<close>

record UsbCanDevice =
  IsConnected :: bool
  HardwareVersion :: u32
  SoftwareVersion :: u32
  disposed :: bool

text \<open>\<open>Array.Copy\<close> throws when asked for more elements than the source array holds.\<close>

definition ReadObdPid ::
    "UsbCanDevice \<Rightarrow> lib_state \<Rightarrow> world \<Rightarrow> u8 \<Rightarrow> fault + (u8 list option \<times> world)" where
  "ReadObdPid dev s w pid =
     (if \<not> IsConnected dev then Inr (None, w)
      else
        (case usb_can_read_obd_pid s w pid (Some (replicate 8 0)) (Some 0) of
           Inl f \<Rightarrow> Inl f
         | Inr (result, responseData, responseLength, w') \<Rightarrow>
             if result \<ge> 0
             then (case (responseData, responseLength) of
                     (Some rd, Some rl) \<Rightarrow>
                       if unat rl \<le> length rd then Inr (Some (take (unat rl) rd), w')
                       else Inl ArgumentException
                   | _ \<Rightarrow> Inl NullDeref)
             else Inr (None, w')))"

text \<open>
  \<open>((data[0] << 8) + data[1]) / 4.0f\<close>: the sum is an \<open>int\<close> below \<open>2^16\<close>, which a
  \<open>float\<close> holds exactly, and so is its quarter; the result is given as a real number.
\<close>

definition GetEngineRpm :: "UsbCanDevice \<Rightarrow> lib_state \<Rightarrow> world \<Rightarrow> fault + (real \<times> world)" where
  "GetEngineRpm dev s w =
     (case ReadObdPid dev s w 0x0C of
        Inl f \<Rightarrow> Inl f
      | Inr (dat, w') \<Rightarrow>
          (case dat of
             Some d \<Rightarrow>
               if length d \<ge> 2
               then Inr (real_of_int (push_bit 8 (uint (d ! 0)) + uint (d ! 1)) / 4, w')
               else Inr (-1, w')
           | None \<Rightarrow> Inr (-1, w')))"

text \<open>
  The inner loop of \<open>GetSupportedPids\<close>, \<open>for (int i = 0; i < 32; i++)\<close>, with its test
  \<open>(data[i / 8] & (0x80 >> (i & 7))) != 0\<close>.
\<close>

definition pid_bit :: "u8 list \<Rightarrow> nat \<Rightarrow> bool" where
  "pid_bit dat i \<longleftrightarrow> (uint (dat ! (i div 8)) AND drop_bit (i AND 7) (0x80 :: int)) \<noteq> 0"

definition pids_of_mask :: "int \<Rightarrow> u8 list \<Rightarrow> int list" where
  "pids_of_mask baseId dat = map (\<lambda>i. baseId + int i) (filter (pid_bit dat) [0..<32])"

text \<open>
  One pass of the outer loop's body after the query:
  \<open>if (data != null && data.Length >= 4) { for ... supportedPids.Add(baseId + i) }\<close>.
\<close>

definition pids_of_response :: "int \<Rightarrow> u8 list option \<Rightarrow> int list" where
  "pids_of_response baseId dat =
     (case dat of
        Some d \<Rightarrow> if length d \<ge> 4 then pids_of_mask baseId d else []
      | None \<Rightarrow> [])"

text \<open>The outer loop, \<open>for (int baseId = 0; baseId < 96; baseId += 32)\<close>.\<close>

function GetSupportedPids_loop ::
    "UsbCanDevice \<Rightarrow> lib_state \<Rightarrow> world \<Rightarrow> int \<Rightarrow> int list \<Rightarrow> fault + (int list \<times> world)" where
  "GetSupportedPids_loop dev s w baseId supportedPids =
     (if baseId < 96
      then (case ReadObdPid dev s w (word_of_int baseId) of
              Inl f \<Rightarrow> Inl f
            | Inr (dat, w') \<Rightarrow>
                GetSupportedPids_loop dev s w' (baseId + 32)
                  (supportedPids @ pids_of_response baseId dat))
      else Inr (supportedPids, w))"
  by pat_completeness auto
termination
  by (relation "measure (\<lambda>(dev, s, w, baseId, supportedPids). nat (96 - baseId))") auto

declare GetSupportedPids_loop.simps [simp del]

definition GetSupportedPids ::
    "UsbCanDevice \<Rightarrow> lib_state \<Rightarrow> world \<Rightarrow> fault + (int list \<times> world)" where
  "GetSupportedPids dev s w = GetSupportedPids_loop dev s w 0 []"

section \<open>Example inputs\<close>

text \<open>
  Concrete states, transports and arguments at which the theorems below are instantiated.
  In \<open>idle_world\<close> every inbound transfer times out (\<open>LIBUSB_ERROR_TIMEOUT\<close> is \<open>-7\<close>)
  and every outbound transfer succeeds.
\<close>

definition s_open :: lib_state where
  "s_open = \<lparr>usb_context = Some 1, device_handle = Some 1, is_initialized = 1\<rparr>"

definition idle_world :: world where
  "idle_world =
     \<lparr>indet = (\<lambda>_. 0), bulk_in = (\<lambda>_. Xfer (-7) []), rx_count = 0,
      bulk_out = (\<lambda>_. (0, 24)), tx_log = [],
      ctrl_in = (\<lambda>_. Xfer (-7) []), ctrl_in_log = [],
      ctrl_out = (\<lambda>_. 0), ctrl_out_log = [], close_log = [], exit_log = []\<rparr>"

definition rx_fresh :: rx_args where
  "rx_fresh = \<lparr>p_can_id = Some 0, p_data = Some (replicate 8 0), p_length = Some 0, p_timestamp = Some 0\<rparr>"

definition short_rx_world :: world where
  "short_rx_world =
     idle_world\<lparr>bulk_in := (\<lambda>n. if n = 0 then Xfer 0 [0, 0, 0, 0, 0xE8, 0x07, 0, 0, 3, 0, 0, 0, 0x11, 0x22]
                                 else Xfer (-7) [])\<rparr>"

text \<open>A device without hardware timestamps delivers 20 of the 24 bytes of a frame.\<close>

definition ts_less_rx_world :: world where
  "ts_less_rx_world =
     idle_world\<lparr>bulk_in := (\<lambda>n. if n = 0
                                 then Xfer 0 [0xFF, 0xFF, 0xFF, 0xFF, 0xE8, 0x07, 0, 0, 5, 0, 0, 0,
                                              0x04, 0x41, 0x0C, 0x1A, 0xF8, 0, 0, 0]
                                 else Xfer (-7) [])\<rparr>"

text \<open>
  The request frame of an OBD-II query, as \<open>usb_can_read_obd_pid\<close> builds it, and its
  24 bytes on the wire.
\<close>

definition obd_request_frame :: "u8 \<Rightarrow> gs_host_frame" where
  "obd_request_frame pid =
     \<lparr>echo_id = 0, can_id = 0x7DF, can_dlc = 8, channel = 0, flags = 0, reserved = 0,
      data = [2, 1, pid, 0x55, 0x55, 0x55, 0x55, 0x55], timestamp_us = 0\<rparr>"

definition obd_request :: "u8 \<Rightarrow> u8 list" where
  "obd_request pid = gs_host_frame_bytes (obd_request_frame pid)"

text \<open>A transport that delivers two frames, an echo and a response, and then times out.\<close>

definition stub_world :: "gs_host_frame \<Rightarrow> gs_host_frame \<Rightarrow> world" where
  "stub_world echo resp =
     idle_world\<lparr>bulk_in := (\<lambda>n. if n = 0 then Xfer 0 (gs_host_frame_bytes echo)
                                 else if n = 1 then Xfer 0 (gs_host_frame_bytes resp)
                                 else Xfer (-7) [])\<rparr>"

definition response_frame :: "u8 \<Rightarrow> u8 list \<Rightarrow> gs_host_frame" where
  "response_frame dlc bytes =
     \<lparr>echo_id = 0xFFFFFFFF, can_id = 0x7E8, can_dlc = dlc, channel = 0, flags = 0, reserved = 0,
      data = bytes, timestamp_us = 0\<rparr>"

text \<open>A connected wrapper object, and a device that reports a \<open>can_dlc\<close> of 9.\<close>

definition dev_connected :: UsbCanDevice where
  "dev_connected = \<lparr>IsConnected = True, HardwareVersion = 0, SoftwareVersion = 0, disposed = False\<rparr>"

definition oversize_dlc_world :: world where
  "oversize_dlc_world =
     idle_world\<lparr>bulk_in := (\<lambda>n. if n = 0
                                 then Xfer 0 (gs_host_frame_bytes
                                        (response_frame 9 [1, 2, 3, 4, 5, 6, 7, 8]))
                                 else Xfer (-7) [])\<rparr>"

text \<open>
  The constants a candleLight adapter reports (48 MHz clock, prescaler from 1 to 1024) and
  a transport that answers every inbound control transfer with them; a state without an
  open handle.
\<close>

definition candle_bt_const :: gs_device_bt_const where
  "candle_bt_const =
     \<lparr>feature = 0, fclk_can = 48000000, tseg1_min = 1, tseg1_max = 16, tseg2_min = 1,
      tseg2_max = 8, sjw_max = 4, brp_min = 1, brp_max = 1024, brp_inc = 1\<rparr>"

definition bt_world :: world where
  "bt_world = idle_world\<lparr>ctrl_in := (\<lambda>_. Xfer 40 (gs_device_bt_const_bytes candle_bt_const))\<rparr>"

definition s_closed :: lib_state where
  "s_closed = \<lparr>usb_context = Some 1, device_handle = None, is_initialized = 1\<rparr>"

text \<open>The bit-timing record \<open>usb_can_set_bitrate\<close> fills in, for a given prescaler.\<close>

definition bittiming_of :: "u32 \<Rightarrow> gs_device_bittiming" where
  "bittiming_of p = \<lparr>prop_seg = 0, phase_seg1 = 13, phase_seg2 = 2, sjw = 1, brp = p\<rparr>"

text \<open>\<open>usb_can_cleanup\<close> called \<open>n\<close> times in a row.\<close>

definition cleanup_times :: "nat \<Rightarrow> lib_state \<times> world \<Rightarrow> lib_state \<times> world" where
  "cleanup_times n = ((\<lambda>(s, w). usb_can_cleanup s w) ^^ n)"

text \<open>Two frames arrive and the third transfer fails with \<open>LIBUSB_ERROR_IO\<close> (\<open>-1\<close>).\<close>

definition purge_world :: world where
  "purge_world =
     idle_world\<lparr>bulk_in := (\<lambda>n. if n < 2 then Xfer 0 (gs_host_frame_bytes zero_frame)
                                 else Xfer (-1) [])\<rparr>"

text \<open>
  The specification's reading of a response to a supported-PID query, to compare the
  loop with: the first four bytes as one big-endian 32-bit number.
\<close>

definition spec_pid_mask :: "u8 list \<Rightarrow> u32" where
  "spec_pid_mask dat =
     push_bit 24 (ucast (dat ! 0)) OR push_bit 16 (ucast (dat ! 1))
       OR push_bit 8 (ucast (dat ! 2)) OR ucast (dat ! 3)"

text \<open>The vehicle answers the query for base PID 0 with \<open>FF FF FF FF\<close> and then falls silent.\<close>

definition all_pids_world :: world where
  "all_pids_world =
     stub_world (obd_request_frame 0x00) (response_frame 7 [0x06, 0x41, 0x00, 0xFF, 0xFF, 0xFF, 0xFF, 0])"

text \<open>
  The frame \<open>usb_can_receive_frame\<close> reads after a transfer that delivered \<open>bs\<close>: its
  storage is zero-initialised and the transfer overwrites the first bytes, at most 24.
\<close>

definition frame_received :: "u8 list \<Rightarrow> gs_host_frame" where
  "frame_received bs =
     gs_host_frame_of_bytes (take 24 bs @ drop (length (take 24 bs)) (replicate 24 0))"

section \<open>Codec lemmas\<close>

lemma length_le32: "length (le32 v) = 4"
  by (simp add: le32_def)

lemma le32_assemble:
  "ucast (ucast v :: u8) OR push_bit 8 (ucast (ucast (drop_bit 8 v) :: u8))
     OR push_bit 16 (ucast (ucast (drop_bit 16 v) :: u8))
     OR push_bit 24 (ucast (ucast (drop_bit 24 v) :: u8)) = (v :: u32)"
proof (rule bit_word_eqI)
  fix n :: nat assume n: "n < LENGTH(32)"
  consider "n < 8" | "8 \<le> n" "n < 16" | "16 \<le> n" "n < 24" | "24 \<le> n" "n < 32"
    using n by fastforce
  then show "bit (ucast (ucast v :: u8) OR push_bit 8 (ucast (ucast (drop_bit 8 v) :: u8))
     OR push_bit 16 (ucast (ucast (drop_bit 16 v) :: u8))
     OR push_bit 24 (ucast (ucast (drop_bit 24 v) :: u8)) :: u32) n = bit v n"
    by cases (auto simp add: bit_simps)
qed

lemma rd32_at: "length xs = off \<Longrightarrow> rd32 (xs @ le32 v @ ys) off = v"
  by (simp add: rd32_def le32_def nth_append le32_assemble)

lemma rd32_0: "rd32 (le32 v @ ys) 0 = v"
  using rd32_at [of "[]" 0 v ys] by simp

lemma rd32_last: "rd32 (le32 v) 0 = v"
  using rd32_at [of "[]" 0 v "[]"] by simp

lemma rd32_skip:
  assumes "4 \<le> off"
  shows "rd32 (le32 v @ ys) off = rd32 ys (off - 4)"
proof -
  obtain k where k: "off = 4 + k"
    using assms le_Suc_ex by blast
  show ?thesis
    by (simp add: k rd32_def nth_append length_le32 add.commute)
qed

lemma le32_0: "le32 0 = [0, 0, 0, 0]"
  by (simp add: le32_def)

lemma zero_frame_bytes: "gs_host_frame_bytes zero_frame = replicate 24 0"
  by (simp add: gs_host_frame_bytes_def zero_frame_def le32_0 numeral_eq_Suc)

lemma length_gs_host_frame_bytes: "length (gs_host_frame_bytes f) = 24"
  by (simp add: gs_host_frame_bytes_def length_le32)

lemma gs_host_frame_roundtrip:
  assumes "length (data f) = 8"
  shows "gs_host_frame_of_bytes (gs_host_frame_bytes f) = f"
proof -
  let ?b = "gs_host_frame_bytes f"
  have e: "rd32 ?b 0 = echo_id f"
    unfolding gs_host_frame_bytes_def by (rule rd32_0)
  have c: "rd32 ?b 4 = can_id f"
    unfolding gs_host_frame_bytes_def by (rule rd32_at) (simp add: length_le32)
  have t: "rd32 ?b 20 = timestamp_us f"
    using rd32_at [of "le32 (echo_id f) @ le32 (can_id f) @ [can_dlc f, channel f, flags f, reserved f] @ take 8 (data f @ replicate 8 0)" 20 "timestamp_us f" "[]"]
    by (simp add: gs_host_frame_bytes_def length_le32)
  have s: "?b ! 8 = can_dlc f" "?b ! 9 = channel f" "?b ! 10 = flags f" "?b ! 11 = reserved f"
    by (simp_all add: gs_host_frame_bytes_def nth_append length_le32)
  have d: "take 8 (drop 12 ?b) = data f"
    using assms by (simp add: gs_host_frame_bytes_def length_le32)
  show ?thesis
    by (simp add: gs_host_frame_of_bytes_def e c t s d)
qed

lemma gs_device_bt_const_roundtrip:
  "gs_device_bt_const_of_bytes (gs_device_bt_const_bytes c) = c"
  by (simp add: gs_device_bt_const_of_bytes_def gs_device_bt_const_bytes_def
        rd32_0 rd32_last rd32_skip)

lemma gs_device_bittiming_roundtrip:
  "gs_device_bittiming_of_bytes (gs_device_bittiming_bytes t) = t"
  by (simp add: gs_device_bittiming_of_bytes_def gs_device_bittiming_bytes_def
        rd32_0 rd32_last rd32_skip)

lemma gs_device_mode_roundtrip:
  "gs_device_mode_of_bytes (gs_device_mode_bytes m) = m"
  by (simp add: gs_device_mode_of_bytes_def gs_device_mode_bytes_def rd32_0 rd32_last rd32_skip)

lemma gs_host_config_roundtrip:
  "gs_host_config_of_bytes (gs_host_config_bytes c) = c"
  by (simp add: gs_host_config_of_bytes_def gs_host_config_bytes_def rd32_last)

lemma gs_identify_mode_roundtrip:
  "gs_identify_mode_of_bytes (gs_identify_mode_bytes m) = m"
  by (simp add: gs_identify_mode_of_bytes_def gs_identify_mode_bytes_def rd32_last)

lemma gs_device_config_roundtrip:
  "gs_device_config_of_bytes (gs_device_config_bytes c) = c"
proof -
  let ?b = "gs_device_config_bytes c"
  have "rd32 ?b 4 = sw_version c"
    unfolding gs_device_config_bytes_def by (rule rd32_at) simp
  moreover have "rd32 ?b 8 = hw_version c"
    using rd32_at [of "[reserved1 c, reserved2 c, reserved3 c, icount c] @ le32 (sw_version c)" 8
                      "hw_version c" "[]"]
    by (simp add: gs_device_config_bytes_def length_le32)
  ultimately show ?thesis
    by (simp add: gs_device_config_of_bytes_def) (simp add: gs_device_config_bytes_def)
qed

text \<open>What \<open>usb_can_receive_frame\<close> does with an open handle and non-null arguments.\<close>

lemma receive_frame_open:
  assumes "device_handle s = Some h"
    and "a = \<lparr>p_can_id = Some c0, p_data = Some dst, p_length = Some l0, p_timestamp = Some t0\<rparr>"
    and "bulk_in w (rx_count w) = Xfer st bs"
    and "fr = gs_host_frame_of_bytes (take 24 bs @ drop (length (take 24 bs)) (replicate 24 0))"
  shows "usb_can_receive_frame s w a =
           (if st < 0 then Inr (st, a, w\<lparr>rx_count := Suc (rx_count w)\<rparr>)
            else if unat (can_dlc fr) \<le> length (data fr) \<and> unat (can_dlc fr) \<le> length dst
            then Inr (0, \<lparr>p_can_id = Some (can_id fr),
                          p_data = Some (take (unat (can_dlc fr)) (data fr) @ drop (unat (can_dlc fr)) dst),
                          p_length = Some (can_dlc fr), p_timestamp = Some (timestamp_us fr)\<rparr>,
                      w\<lparr>rx_count := Suc (rx_count w)\<rparr>)
            else Inl OutOfBounds)"
  using assms
  by (simp add: usb_can_receive_frame_def data_in_def zero_frame_bytes memcpy_def Let_def)

lemma length_overlay:
  "length (take 24 bs @ drop (length (take 24 bs)) (replicate 24 (0::u8))) = 24"
  by simp

lemma length_data_of_bytes: "length bs = 24 \<Longrightarrow> length (data (gs_host_frame_of_bytes bs)) = 8"
  by (simp add: gs_host_frame_of_bytes_def)

section \<open>The wire records (claim C5)\<close>

text \<open>
  What \<open>usb_can_receive_frame\<close> returns, by the status of the transfer and the frame
  read.
\<close>

lemma length_data_frame_received: "length (data (frame_received bs)) = 8"
  unfolding frame_received_def by (rule length_data_of_bytes) (rule length_overlay)

lemma receive_frame_cases:
  assumes "device_handle s = Some h"
    and "a = \<lparr>p_can_id = Some c0, p_data = Some dst, p_length = Some l0, p_timestamp = Some t0\<rparr>"
    and "bulk_in w (rx_count w) = Xfer st bs"
  shows "usb_can_receive_frame s w a =
           (if st < 0 then Inr (st, a, w\<lparr>rx_count := Suc (rx_count w)\<rparr>)
            else if unat (can_dlc (frame_received bs)) \<le> 8
                    \<and> unat (can_dlc (frame_received bs)) \<le> length dst
            then Inr (0,
                      \<lparr>p_can_id = Some (can_id (frame_received bs)),
                       p_data = Some (take (unat (can_dlc (frame_received bs))) (data (frame_received bs))
                                       @ drop (unat (can_dlc (frame_received bs))) dst),
                       p_length = Some (can_dlc (frame_received bs)),
                       p_timestamp = Some (timestamp_us (frame_received bs))\<rparr>,
                      w\<lparr>rx_count := Suc (rx_count w)\<rparr>)
            else Inl OutOfBounds)"
  using receive_frame_open [OF assms(1,2,3), of "frame_received bs"]
    length_data_frame_received [of bs]
  by (simp add: frame_received_def)

text \<open>
  Claim C5, as amended. Reading back the object representation of a frame whose data
  array holds eight bytes, or of any register record, gives the record again, and a frame
  is represented by exactly 24 bytes. Nothing checks the length of what arrives.
  \<open>usb_can_receive_frame\<close>, called with an open handle and non-null arguments, returns a
  negative transfer status as it is and leaves its outputs untouched. A transfer whose
  status is not negative is accepted however few bytes it delivered: the frame is read
  from zero-initialised storage overlaid with those bytes, so the bytes that did not
  arrive read as zero, and when the \<open>can_dlc\<close> of that frame is at most 8 and no more than
  the caller's data buffer holds, the call returns 0 with the fields of that frame.
\<close>

theorem wire_roundtrip_without_length_check:
  assumes "length (data f) = 8"
    and "device_handle s = Some h"
    and "a = \<lparr>p_can_id = Some c0, p_data = Some dst, p_length = Some l0, p_timestamp = Some t0\<rparr>"
    and "bulk_in w (rx_count w) = Xfer st bs"
  shows "gs_host_frame_of_bytes (gs_host_frame_bytes f) = f
       \<and> length (gs_host_frame_bytes f) = 24
       \<and> gs_host_config_of_bytes (gs_host_config_bytes hc) = hc
       \<and> gs_device_config_of_bytes (gs_device_config_bytes dc) = dc
       \<and> gs_identify_mode_of_bytes (gs_identify_mode_bytes im) = im
       \<and> gs_device_bt_const_of_bytes (gs_device_bt_const_bytes bc) = bc
       \<and> gs_device_bittiming_of_bytes (gs_device_bittiming_bytes bt) = bt
       \<and> gs_device_mode_of_bytes (gs_device_mode_bytes dm) = dm
       \<and> (st < 0 \<longrightarrow>
            usb_can_receive_frame s w a = Inr (st, a, w\<lparr>rx_count := Suc (rx_count w)\<rparr>))
       \<and> (0 \<le> st \<and> unat (can_dlc (frame_received bs)) \<le> 8
              \<and> unat (can_dlc (frame_received bs)) \<le> length dst \<longrightarrow>
            usb_can_receive_frame s w a =
              Inr (0,
                   \<lparr>p_can_id = Some (can_id (frame_received bs)),
                    p_data = Some (take (unat (can_dlc (frame_received bs))) (data (frame_received bs))
                                    @ drop (unat (can_dlc (frame_received bs))) dst),
                    p_length = Some (can_dlc (frame_received bs)),
                    p_timestamp = Some (timestamp_us (frame_received bs))\<rparr>,
                   w\<lparr>rx_count := Suc (rx_count w)\<rparr>))"
proof -
  have codecs: "gs_host_frame_of_bytes (gs_host_frame_bytes f) = f
       \<and> length (gs_host_frame_bytes f) = 24
       \<and> gs_host_config_of_bytes (gs_host_config_bytes hc) = hc
       \<and> gs_device_config_of_bytes (gs_device_config_bytes dc) = dc
       \<and> gs_identify_mode_of_bytes (gs_identify_mode_bytes im) = im
       \<and> gs_device_bt_const_of_bytes (gs_device_bt_const_bytes bc) = bc
       \<and> gs_device_bittiming_of_bytes (gs_device_bittiming_bytes bt) = bt
       \<and> gs_device_mode_of_bytes (gs_device_mode_bytes dm) = dm"
    using assms(1)
    by (simp add: gs_host_frame_roundtrip length_gs_host_frame_bytes gs_host_config_roundtrip
          gs_device_config_roundtrip gs_identify_mode_roundtrip gs_device_bt_const_roundtrip
          gs_device_bittiming_roundtrip gs_device_mode_roundtrip)
  have rejected: "st < 0 \<longrightarrow>
            usb_can_receive_frame s w a = Inr (st, a, w\<lparr>rx_count := Suc (rx_count w)\<rparr>)"
    using receive_frame_cases [OF assms(2,3,4)] by simp
  have accepted: "0 \<le> st \<and> unat (can_dlc (frame_received bs)) \<le> 8
              \<and> unat (can_dlc (frame_received bs)) \<le> length dst \<longrightarrow>
            usb_can_receive_frame s w a =
              Inr (0,
                   \<lparr>p_can_id = Some (can_id (frame_received bs)),
                    p_data = Some (take (unat (can_dlc (frame_received bs))) (data (frame_received bs))
                                    @ drop (unat (can_dlc (frame_received bs))) dst),
                    p_length = Some (can_dlc (frame_received bs)),
                    p_timestamp = Some (timestamp_us (frame_received bs))\<rparr>,
                   w\<lparr>rx_count := Suc (rx_count w)\<rparr>)"
    using receive_frame_cases [OF assms(2,3,4)] by simp
  show ?thesis
    using codecs rejected accepted by blast
qed

text \<open>Unfolds \<open>replicate\<close> at a literal count.\<close>

lemma replicate_pos: "0 < n \<Longrightarrow> replicate n x = x # replicate (n - 1) x"
  by (cases n) simp_all

lemma frame_received_ts_less:
  "frame_received [0xFF, 0xFF, 0xFF, 0xFF, 0xE8, 0x07, 0, 0, 5, 0, 0, 0,
                   0x04, 0x41, 0x0C, 0x1A, 0xF8, 0, 0, 0] =
     \<lparr>echo_id = 0xFFFFFFFF, can_id = 0x7E8, can_dlc = 5, channel = 0, flags = 0,
      reserved = 0, data = [0x04, 0x41, 0x0C, 0x1A, 0xF8, 0, 0, 0], timestamp_us = 0\<rparr>"
  by (simp add: frame_received_def gs_host_frame_of_bytes_def rd32_def replicate_pos)

theorem wire_roundtrip_without_length_check_witness:
  "usb_can_receive_frame s_open ts_less_rx_world rx_fresh =
     Inr (0,
          \<lparr>p_can_id = Some 0x7E8, p_data = Some [0x04, 0x41, 0x0C, 0x1A, 0xF8, 0, 0, 0],
           p_length = Some 5, p_timestamp = Some 0\<rparr>,
          ts_less_rx_world\<lparr>rx_count := 1\<rparr>)
   \<and> usb_can_receive_frame s_open idle_world rx_fresh =
       Inr (-7, rx_fresh, idle_world\<lparr>rx_count := 1\<rparr>)
   \<and> gs_host_frame_of_bytes (gs_host_frame_bytes zero_frame) = zero_frame"
proof -
  let ?bs = "[0xFF, 0xFF, 0xFF, 0xFF, 0xE8, 0x07, 0, 0, 5, 0, 0, 0,
              0x04, 0x41, 0x0C, 0x1A, 0xF8, 0, 0, 0] :: u8 list"
  have h1: "length (data zero_frame) = 8"
    by (simp add: zero_frame_def)
  have h2: "device_handle s_open = Some 1"
    by (simp add: s_open_def)
  have h3: "rx_fresh = \<lparr>p_can_id = Some 0, p_data = Some (replicate 8 0), p_length = Some 0,
                         p_timestamp = Some 0\<rparr>"
    by (simp add: rx_fresh_def)
  have h4: "bulk_in ts_less_rx_world (rx_count ts_less_rx_world) = Xfer 0 ?bs"
    by (simp add: ts_less_rx_world_def idle_world_def)
  have h5: "bulk_in idle_world (rx_count idle_world) = Xfer (-7) []"
    by (simp add: idle_world_def)
  have fits: "(0::int) \<le> 0 \<and> unat (can_dlc (frame_received ?bs)) \<le> 8
                \<and> unat (can_dlc (frame_received ?bs)) \<le> length (replicate 8 (0::u8))"
    by (simp add: frame_received_ts_less)
  have neg: "(-7 :: int) < 0"
    by simp
  have r1: "rx_count ts_less_rx_world = 0" and r2: "rx_count idle_world = 0"
    by (simp_all add: ts_less_rx_world_def idle_world_def)
  show ?thesis
    using wire_roundtrip_without_length_check [OF h1 h2 h3 h4] fits
      wire_roundtrip_without_length_check [OF h1 h2 h3 h5] neg
    by (simp add: frame_received_ts_less replicate_pos r1 r2)
qed

text \<open>
  Claim C5 as stated fails: a transfer of 14 bytes, ten short of a frame, is not rejected.
  The call returns 0 and hands out the identifier, a length of 3 and the two data bytes
  that arrived.
\<close>

theorem short_transfer_accepted_counterexample:
  "bulk_in short_rx_world (rx_count short_rx_world)
     = Xfer 0 [0, 0, 0, 0, 0xE8, 0x07, 0, 0, 3, 0, 0, 0, 0x11, 0x22]
   \<and> usb_can_receive_frame s_open short_rx_world rx_fresh =
     Inr (0,
          \<lparr>p_can_id = Some 0x7E8, p_data = Some [0x11, 0x22, 0, 0, 0, 0, 0, 0],
           p_length = Some 3, p_timestamp = Some 0\<rparr>,
          short_rx_world\<lparr>rx_count := 1\<rparr>)"
  by (simp add: usb_can_receive_frame_def data_in_def zero_frame_bytes memcpy_def
        gs_host_frame_of_bytes_def rd32_def
        s_open_def rx_fresh_def short_rx_world_def idle_world_def replicate_pos)

lemma send_frame_open:
  assumes "device_handle s = Some h" and "len \<le> 8" and "unat len \<le> length src"
  shows "usb_can_send_frame s w cid (Some src) len =
           Inr (data_out w (gs_host_frame_bytes
                  (zero_frame\<lparr>can_id := cid, can_dlc := len,
                     data := take (unat len) src @ drop (unat len) (replicate 8 0)\<rparr>)))"
proof -
  have "unat len \<le> 8" and "\<not> 8 < len"
    using assms(2) by (simp_all add: word_le_nat_alt not_less)
  then show ?thesis
    using assms(1,3) by (simp add: usb_can_send_frame_def memcpy_def zero_frame_def)
qed

lemma send_frame_rejects:
  "dat = None \<or> device_handle s = None \<or> 8 < len \<Longrightarrow> usb_can_send_frame s w cid dat len = Inr (-1, w)"
  by (auto simp add: usb_can_send_frame_def split: option.splits)

lemma receive_frame_full:
  assumes "device_handle s = Some h"
    and "bulk_in w (rx_count w) = Xfer st (gs_host_frame_bytes f)"
    and "0 \<le> st"
    and "length (data f) = 8"
    and "can_dlc f \<le> 8"
    and "8 \<le> length dst"
  shows "usb_can_receive_frame s w
           \<lparr>p_can_id = Some c0, p_data = Some dst, p_length = Some l0, p_timestamp = Some t0\<rparr> =
         Inr (0,
              \<lparr>p_can_id = Some (can_id f),
               p_data = Some (take (unat (can_dlc f)) (data f) @ drop (unat (can_dlc f)) dst),
               p_length = Some (can_dlc f), p_timestamp = Some (timestamp_us f)\<rparr>,
              w\<lparr>rx_count := Suc (rx_count w)\<rparr>)"
proof -
  have dlc: "unat (can_dlc f) \<le> 8"
    using assms(5) by (simp add: word_le_nat_alt)
  have fr: "f = gs_host_frame_of_bytes
                  (take 24 (gs_host_frame_bytes f)
                     @ drop (length (take 24 (gs_host_frame_bytes f))) (replicate 24 0))"
    using assms(4) by (simp add: length_gs_host_frame_bytes gs_host_frame_roundtrip)
  show ?thesis
    using receive_frame_open [OF assms(1) refl assms(2) fr, of c0 dst l0 t0] assms(3,4,6) dlc
    by simp
qed

text \<open>The whole exchange of \<open>usb_can_read_obd_pid\<close> when both frames arrive.\<close>

lemma read_obd_pid_frames:
  assumes "device_handle s = Some h"
    and "unat (can_dlc resp) - 3 \<le> length rd"
    and "bulk_out w (length (tx_log w)) = (so, n)" and "0 \<le> so"
    and "bulk_in w (rx_count w) = Xfer st1 (gs_host_frame_bytes echo)" and "0 \<le> st1"
    and "length (data echo) = 8" and "can_dlc echo \<le> 8"
    and "bulk_in w (Suc (rx_count w)) = Xfer st2 (gs_host_frame_bytes resp)" and "0 \<le> st2"
    and "length (data resp) = 8" and "can_dlc resp \<le> 8"
  shows "usb_can_read_obd_pid s w pid (Some rd) (Some rl) =
           (if 3 \<le> can_dlc resp \<and> data resp ! 1 = 0x41 \<and> data resp ! 2 = pid
            then Inr (0,
                      Some (take (unat (can_dlc resp) - 3) (drop 3 (data resp))
                              @ drop (unat (can_dlc resp) - 3) rd),
                      Some (can_dlc resp - 3),
                      w\<lparr>tx_log := tx_log w @ [obd_request pid], rx_count := rx_count w + 2\<rparr>)
            else Inr (-1, Some rd, Some rl,
                      w\<lparr>tx_log := tx_log w @ [obd_request pid], rx_count := rx_count w + 2\<rparr>))"
proof -
  let ?w1 = "w\<lparr>tx_log := tx_log w @ [obd_request pid]\<rparr>"
  let ?w2 = "?w1\<lparr>rx_count := Suc (rx_count ?w1)\<rparr>"
  let ?w3 = "?w2\<lparr>rx_count := Suc (rx_count ?w2)\<rparr>"
  let ?n = "unat (can_dlc resp)"
  define d1 where
    "d1 = take (unat (can_dlc echo)) (data echo) @ drop (unat (can_dlc echo)) (map (indet w) [0..<8])"
  define d2 where "d2 = take ?n (data resp) @ drop ?n d1"
  have e8: "unat (can_dlc echo) \<le> 8" and r8: "?n \<le> 8"
    using assms(8,12) by (simp_all add: word_le_nat_alt)
  have snd: "usb_can_send_frame s w 0x7DF (Some [2, 1, pid, 0x55, 0x55, 0x55, 0x55, 0x55]) 8
               = Inr (int n, ?w1)"
    using send_frame_open [OF assms(1), of 8 "[2, 1, pid, 0x55, 0x55, 0x55, 0x55, 0x55]" w "0x7DF"]
      assms(3,4)
    by (simp add: data_out_def obd_request_def obd_request_frame_def zero_frame_def)
  have rx1: "usb_can_receive_frame s ?w1 (obd_locals w) =
               Inr (0, \<lparr>p_can_id = Some (can_id echo), p_data = Some d1,
                         p_length = Some (can_dlc echo), p_timestamp = Some (timestamp_us echo)\<rparr>, ?w2)"
    unfolding obd_locals_def d1_def
    by (rule receive_frame_full [OF assms(1), where st = st1]) (use assms in simp_all)
  have len1: "length d1 = 8"
    using assms(7) e8 by (simp add: d1_def)
  have rx2: "usb_can_receive_frame s ?w2
               \<lparr>p_can_id = Some (can_id echo), p_data = Some d1,
                 p_length = Some (can_dlc echo), p_timestamp = Some (timestamp_us echo)\<rparr> =
               Inr (0, \<lparr>p_can_id = Some (can_id resp), p_data = Some d2,
                         p_length = Some (can_dlc resp), p_timestamp = Some (timestamp_us resp)\<rparr>, ?w3)"
    unfolding d2_def
    by (rule receive_frame_full [OF assms(1), where st = st2]) (use assms len1 in simp_all)
  have l2: "length d2 = 8"
    using assms(11) r8 len1 by (simp add: d2_def)
  show ?thesis
  proof (cases "3 \<le> can_dlc resp")
    case False
    then show ?thesis
      using assms(1) snd rx1 rx2 by (simp add: usb_can_read_obd_pid_def)
  next
    case True
    then have three: "3 \<le> ?n"
      by (simp add: word_le_nat_alt)
    have sub: "unat (can_dlc resp - 3) = ?n - 3"
      using True by (simp add: unat_sub)
    have b1: "d2 ! 1 = data resp ! 1" and b2: "d2 ! 2 = data resp ! 2"
      using three assms(11) by (simp_all add: d2_def nth_append)
    have tl: "take (?n - 3) (drop 3 d2) = take (?n - 3) (drop 3 (data resp))"
      using three r8 assms(11) by (simp add: d2_def drop_take)
    have cap: "?n - 3 \<le> length (drop 3 d2)" "?n - 3 \<le> length rd"
      using r8 l2 assms(2) by simp_all
    have mc: "memcpy rd (drop 3 d2) (unat (can_dlc resp - 3)) =
                Inr (take (?n - 3) (drop 3 (data resp)) @ drop (?n - 3) rd)"
      unfolding memcpy_def sub using cap tl by simp
    show ?thesis
      using assms(1) snd rx1 rx2 True b1 b2 mc
      by (simp add: usb_can_read_obd_pid_def)
  qed
qed


section \<open>The OBD-II query (claim C1)\<close>

text \<open>
  Claim C1. With an open handle and a response buffer of at least eight bytes, when the
  request is sent and two frames arrive, \<open>usb_can_read_obd_pid\<close> has sent exactly one
  frame, the 8-byte request with identifier \<open>0x7DF\<close> and payload
  \<open>[2, 1, pid, 0x55, 0x55, 0x55, 0x55, 0x55]\<close>; it has taken two frames from the
  transport, and its result does not depend on the first of them, the echo. It returns 0
  if and only if the second frame has a length of at least 3, byte 1 equal to \<open>0x41\<close> and
  byte 2 equal to \<open>pid\<close>; then the response length is the frame length minus 3 and the
  response buffer starts with the payload bytes from index 3 on. Otherwise it returns -1
  and both output buffers are as they were.
\<close>

theorem read_obd_pid_exchange:
  assumes "device_handle s = Some h"
    and "8 \<le> length rd"
    and "bulk_out w (length (tx_log w)) = (so, n)" and "0 \<le> so"
    and "bulk_in w (rx_count w) = Xfer st1 (gs_host_frame_bytes echo)" and "0 \<le> st1"
    and "length (data echo) = 8" and "can_dlc echo \<le> 8"
    and "bulk_in w (Suc (rx_count w)) = Xfer st2 (gs_host_frame_bytes resp)" and "0 \<le> st2"
    and "length (data resp) = 8" and "can_dlc resp \<le> 8"
  shows "usb_can_read_obd_pid s w pid (Some rd) (Some rl) =
           (if 3 \<le> can_dlc resp \<and> data resp ! 1 = 0x41 \<and> data resp ! 2 = pid
            then Inr (0,
                      Some (take (unat (can_dlc resp) - 3) (drop 3 (data resp))
                              @ drop (unat (can_dlc resp) - 3) rd),
                      Some (can_dlc resp - 3),
                      w\<lparr>tx_log := tx_log w @ [obd_request pid], rx_count := rx_count w + 2\<rparr>)
            else Inr (-1, Some rd, Some rl,
                      w\<lparr>tx_log := tx_log w @ [obd_request pid], rx_count := rx_count w + 2\<rparr>))"
proof -
  have "unat (can_dlc resp) \<le> 8"
    using assms(12) by (simp add: word_le_nat_alt)
  then have "unat (can_dlc resp) - 3 \<le> length rd"
    using assms(2) by simp
  then show ?thesis
    by (rule read_obd_pid_frames [OF assms(1) _ assms(3-12)])
qed

theorem read_obd_pid_exchange_witness:
  "usb_can_read_obd_pid s_open
       (stub_world (obd_request_frame 0x0D) (response_frame 4 [0x03, 0x41, 0x0D, 0x32, 0, 0, 0, 0]))
       0x0D (Some (replicate 8 0)) (Some 0)
     = Inr (0, Some [0x32, 0, 0, 0, 0, 0, 0, 0], Some 1,
            stub_world (obd_request_frame 0x0D) (response_frame 4 [0x03, 0x41, 0x0D, 0x32, 0, 0, 0, 0])
              \<lparr>tx_log := [obd_request 0x0D], rx_count := 2\<rparr>)"
proof -
  let ?echo = "obd_request_frame 0x0D"
  let ?resp = "response_frame 4 [0x03, 0x41, 0x0D, 0x32, 0, 0, 0, 0]"
  let ?w = "stub_world ?echo ?resp"
  have h1: "device_handle s_open = Some 1"
    by (simp add: s_open_def)
  have h2: "8 \<le> length (replicate 8 (0::u8))"
    by simp
  have h3: "bulk_out ?w (length (tx_log ?w)) = (0, 24)" and h4: "(0::int) \<le> 0"
    by (simp_all add: stub_world_def idle_world_def)
  have h5: "bulk_in ?w (rx_count ?w) = Xfer 0 (gs_host_frame_bytes ?echo)"
    by (simp add: stub_world_def idle_world_def)
  have h7: "length (data ?echo) = 8" and h8: "can_dlc ?echo \<le> 8"
    by (simp_all add: obd_request_frame_def)
  have h9: "bulk_in ?w (Suc (rx_count ?w)) = Xfer 0 (gs_host_frame_bytes ?resp)"
    by (simp add: stub_world_def idle_world_def)
  have h11: "length (data ?resp) = 8" and h12: "can_dlc ?resp \<le> 8"
    by (simp_all add: response_frame_def)
  show ?thesis
    using read_obd_pid_exchange [OF h1 h2 h3 h4 h5 h4 h7 h8 h9 h4 h11 h12, of "0x0D" 0]
    by (simp add: response_frame_def replicate_pos stub_world_def idle_world_def)
qed

lemma response_frame_roundtrip:
  "length bytes = 8 \<Longrightarrow>
     gs_host_frame_of_bytes (take 24 (gs_host_frame_bytes (response_frame dlc bytes))
        @ drop (length (take 24 (gs_host_frame_bytes (response_frame dlc bytes)))) (replicate 24 0))
       = response_frame dlc bytes"
  by (simp add: length_gs_host_frame_bytes gs_host_frame_roundtrip response_frame_def)

section \<open>Frame lengths (claim C6)\<close>

text \<open>
  Claim C6 holds for sending: \<open>usb_can_send_frame\<close> returns -1, and sends nothing, for a
  null data pointer and for a length above 8.
\<close>

lemma send_frame_checks_length:
  "8 < len \<Longrightarrow> usb_can_send_frame s w cid dat len = Inr (-1, w)"
  "usb_can_send_frame s w cid None len = Inr (-1, w)"
  by (simp_all add: send_frame_rejects)

text \<open>
  Claim C6 fails for receiving, and the code is at fault. \<open>usb_can_receive_frame\<close> stores
  \<open>can_dlc\<close> as the length without a bound and copies \<open>can_dlc\<close> bytes. When the device
  reports a \<open>can_dlc\<close> of 9, nine bytes are copied out of the 8-byte member \<open>data\<close> into
  the caller's buffer, which the header only requires to hold 8 bytes: the call leaves the
  bounds of both arrays.
\<close>

theorem receive_frame_oversize_dlc:
  "can_dlc (response_frame 9 [1, 2, 3, 4, 5, 6, 7, 8]) = 9
   \<and> usb_can_receive_frame s_open oversize_dlc_world rx_fresh = Inl OutOfBounds"
proof -
  have h1: "device_handle s_open = Some 1"
    by (simp add: s_open_def)
  have h3: "bulk_in oversize_dlc_world (rx_count oversize_dlc_world)
              = Xfer 0 (gs_host_frame_bytes (response_frame 9 [1, 2, 3, 4, 5, 6, 7, 8]))"
    by (simp add: oversize_dlc_world_def idle_world_def)
  have h4: "response_frame 9 [1, 2, 3, 4, 5, 6, 7, 8] =
      gs_host_frame_of_bytes (take 24 (gs_host_frame_bytes (response_frame 9 [1, 2, 3, 4, 5, 6, 7, 8]))
        @ drop (length (take 24 (gs_host_frame_bytes (response_frame 9 [1, 2, 3, 4, 5, 6, 7, 8])))) (replicate 24 0))"
    by (rule response_frame_roundtrip [symmetric]) simp
  show ?thesis
    using receive_frame_open [OF h1 _ h3 h4, of rx_fresh 0 "replicate 8 0" 0 0]
    by (simp add: rx_fresh_def response_frame_def)
qed

section \<open>The RPM query (claim C8)\<close>

lemma ReadObdPid_frames:
  assumes "IsConnected dev"
    and "device_handle s = Some h"
    and "bulk_out w (length (tx_log w)) = (so, n)" and "0 \<le> so"
    and "bulk_in w (rx_count w) = Xfer st1 (gs_host_frame_bytes echo)" and "0 \<le> st1"
    and "length (data echo) = 8" and "can_dlc echo \<le> 8"
    and "bulk_in w (Suc (rx_count w)) = Xfer st2 (gs_host_frame_bytes resp)" and "0 \<le> st2"
    and "length (data resp) = 8" and "can_dlc resp \<le> 8"
  shows "ReadObdPid dev s w pid =
           Inr (if 3 \<le> can_dlc resp \<and> data resp ! 1 = 0x41 \<and> data resp ! 2 = pid
                then Some (take (unat (can_dlc resp) - 3) (drop 3 (data resp)))
                else None,
                w\<lparr>tx_log := tx_log w @ [obd_request pid], rx_count := rx_count w + 2\<rparr>)"
proof -
  have r8: "unat (can_dlc resp) \<le> 8"
    using assms(12) by (simp add: word_le_nat_alt)
  then have cap8: "unat (can_dlc resp) - 3 \<le> 8"
    by arith
  then have cap: "unat (can_dlc resp) - 3 \<le> length (replicate 8 (0::u8))"
    by simp
  show ?thesis
  proof (cases "3 \<le> can_dlc resp")
    case True
    then have "unat (can_dlc resp - 3) = unat (can_dlc resp) - 3"
      by (simp add: unat_sub)
    then show ?thesis
      using read_obd_pid_frames [OF assms(2) cap assms(3-12), of pid 0] assms(1,11) r8 cap8
      by (simp add: ReadObdPid_def)
  next
    case False
    then show ?thesis
      using read_obd_pid_frames [OF assms(2) cap assms(3-12), of pid 0] assms(1)
      by (simp add: ReadObdPid_def)
  qed
qed

lemma stub_world_facts:
  "bulk_out (stub_world echo resp) (length (tx_log (stub_world echo resp))) = (0, 24)"
  "bulk_in (stub_world echo resp) (rx_count (stub_world echo resp)) = Xfer 0 (gs_host_frame_bytes echo)"
  "bulk_in (stub_world echo resp) (Suc (rx_count (stub_world echo resp))) = Xfer 0 (gs_host_frame_bytes resp)"
  "tx_log (stub_world echo resp) = []" "rx_count (stub_world echo resp) = 0"
  by (simp_all add: stub_world_def idle_world_def)

lemma ReadObdPid_stub:
  assumes "length bytes = 8" and "dlc \<le> 8"
  shows "ReadObdPid dev_connected s_open (stub_world (obd_request_frame pid) (response_frame dlc bytes)) pid =
           Inr (if 3 \<le> dlc \<and> bytes ! 1 = 0x41 \<and> bytes ! 2 = pid
                then Some (take (unat dlc - 3) (drop 3 bytes)) else None,
                stub_world (obd_request_frame pid) (response_frame dlc bytes)
                  \<lparr>tx_log := [obd_request pid], rx_count := 2\<rparr>)"
proof -
  let ?w = "stub_world (obd_request_frame pid) (response_frame dlc bytes)"
  have c: "IsConnected dev_connected" and h: "device_handle s_open = Some 1"
    by (simp_all add: dev_connected_def s_open_def)
  have z: "(0::int) \<le> 0" by simp
  have e: "length (data (obd_request_frame pid)) = 8" "can_dlc (obd_request_frame pid) \<le> 8"
    by (simp_all add: obd_request_frame_def)
  have r: "length (data (response_frame dlc bytes)) = 8" "can_dlc (response_frame dlc bytes) \<le> 8"
    using assms by (simp_all add: response_frame_def)
  show ?thesis
    using ReadObdPid_frames [OF c h stub_world_facts(1) z stub_world_facts(2) z e
                                stub_world_facts(3) z r, of pid]
    by (simp add: stub_world_facts response_frame_def)
qed

text \<open>
  Claim C8 as stated fails. The response frame of the claim has length 4, so the value
  is the single byte at index 3: the query returns \<open>[0x1A]\<close>, not \<open>[0x1A, 0xF8]\<close>, and
  the RPM decoder, which needs two bytes, returns -1.
\<close>

theorem rpm_query_length4_counterexample:
  "ReadObdPid dev_connected s_open
       (stub_world (obd_request_frame 0x0C) (response_frame 4 [0x04, 0x41, 0x0C, 0x1A, 0xF8, 0, 0, 0])) 0x0C
     = Inr (Some [0x1A],
            stub_world (obd_request_frame 0x0C) (response_frame 4 [0x04, 0x41, 0x0C, 0x1A, 0xF8, 0, 0, 0])
              \<lparr>tx_log := [obd_request 0x0C], rx_count := 2\<rparr>)
   \<and> GetEngineRpm dev_connected s_open
       (stub_world (obd_request_frame 0x0C) (response_frame 4 [0x04, 0x41, 0x0C, 0x1A, 0xF8, 0, 0, 0]))
     = Inr (-1,
            stub_world (obd_request_frame 0x0C) (response_frame 4 [0x04, 0x41, 0x0C, 0x1A, 0xF8, 0, 0, 0])
              \<lparr>tx_log := [obd_request 0x0C], rx_count := 2\<rparr>)"
  using ReadObdPid_stub [of "[0x04, 0x41, 0x0C, 0x1A, 0xF8, 0, 0, 0]" 4 "0x0C"]
  by (simp add: GetEngineRpm_def)

text \<open>
  Claim C8, as amended: the response frame has length 5, the number of bytes its data
  shows. Given the echo frame and then the response frame with identifier \<open>0x7E8\<close>,
  length 5 and data \<open>[0x04, 0x41, 0x0C, 0x1A, 0xF8]\<close>, the query for PID \<open>0x0C\<close> returns the
  value bytes \<open>[0x1A, 0xF8]\<close> and the RPM decoder returns 1726. In general the decoder
  returns \<open>(byte0 * 256 + byte1) / 4\<close> when the query returns at least two bytes, and -1
  when it returns fewer.
\<close>

theorem rpm_query_length5:
  "ReadObdPid dev_connected s_open
       (stub_world (obd_request_frame 0x0C) (response_frame 5 [0x04, 0x41, 0x0C, 0x1A, 0xF8, 0, 0, 0])) 0x0C
     = Inr (Some [0x1A, 0xF8],
            stub_world (obd_request_frame 0x0C) (response_frame 5 [0x04, 0x41, 0x0C, 0x1A, 0xF8, 0, 0, 0])
              \<lparr>tx_log := [obd_request 0x0C], rx_count := 2\<rparr>)
   \<and> GetEngineRpm dev_connected s_open
       (stub_world (obd_request_frame 0x0C) (response_frame 5 [0x04, 0x41, 0x0C, 0x1A, 0xF8, 0, 0, 0]))
     = Inr (1726,
            stub_world (obd_request_frame 0x0C) (response_frame 5 [0x04, 0x41, 0x0C, 0x1A, 0xF8, 0, 0, 0])
              \<lparr>tx_log := [obd_request 0x0C], rx_count := 2\<rparr>)
   \<and> (ReadObdPid dev s w 0x0C = Inr (Some d, w') \<longrightarrow>
        GetEngineRpm dev s w =
          Inr (if 2 \<le> length d then (real (unat (d ! 0)) * 256 + real (unat (d ! 1))) / 4 else -1, w'))"
  using ReadObdPid_stub [of "[0x04, 0x41, 0x0C, 0x1A, 0xF8, 0, 0, 0]" 5 "0x0C"]
  by (simp add: GetEngineRpm_def push_bit_eq_mult)

theorem rpm_query_length5_witness:
  "GetEngineRpm dev_connected s_open
       (stub_world (obd_request_frame 0x0C) (response_frame 5 [0x04, 0x41, 0x0C, 0x1A, 0xF8, 0, 0, 0]))
     = Inr ((real (unat (0x1A :: u8)) * 256 + real (unat (0xF8 :: u8))) / 4,
            stub_world (obd_request_frame 0x0C) (response_frame 5 [0x04, 0x41, 0x0C, 0x1A, 0xF8, 0, 0, 0])
              \<lparr>tx_log := [obd_request 0x0C], rx_count := 2\<rparr>)"
  using rpm_query_length5
          [of dev_connected s_open
              "stub_world (obd_request_frame 0x0C) (response_frame 5 [0x04, 0x41, 0x0C, 0x1A, 0xF8, 0, 0, 0])"
              "[0x1A, 0xF8]"
              "stub_world (obd_request_frame 0x0C) (response_frame 5 [0x04, 0x41, 0x0C, 0x1A, 0xF8, 0, 0, 0])
                 \<lparr>tx_log := [obd_request 0x0C], rx_count := 2\<rparr>"]
  by simp

section \<open>Setting the bitrate (claims C2 and C3)\<close>

lemma length_gs_device_bt_const_bytes: "length (gs_device_bt_const_bytes c) = 40"
  by (simp add: gs_device_bt_const_bytes_def length_le32)

lemma set_bitrate_closed: "device_handle s = None \<Longrightarrow> usb_can_set_bitrate s w bitrate = Inr (-1, w)"
  by (simp add: usb_can_set_bitrate_def)

lemma set_bitrate_read_fails:
  assumes "device_handle s = Some h"
    and "ctrl_in w (length (ctrl_in_log w)) = Xfer st bs" and "st < 0"
  shows "usb_can_set_bitrate s w bitrate =
           Inr (st, w\<lparr>ctrl_in_log := ctrl_in_log w @ [GS_USB_BREQ_BT_CONST]\<rparr>)"
  using assms by (simp add: usb_can_set_bitrate_def control_in_def)

lemma set_bitrate_open:
  assumes "device_handle s = Some h"
    and "ctrl_in w (length (ctrl_in_log w)) = Xfer st (gs_device_bt_const_bytes c)"
    and "0 \<le> st"
    and "bitrate * 16 \<noteq> 0"
  shows "usb_can_set_bitrate s w bitrate =
           Inr (ctrl_out w (length (ctrl_out_log w)),
                w\<lparr>ctrl_in_log := ctrl_in_log w @ [GS_USB_BREQ_BT_CONST],
                  ctrl_out_log := ctrl_out_log w @
                    [(GS_USB_BREQ_BITTIMING,
                      gs_device_bittiming_bytes (bittiming_of (fclk_can c div (bitrate * 16))))]\<rparr>)"
  using assms
  by (simp add: usb_can_set_bitrate_def control_in_def control_out_def bittiming_of_def
        length_gs_device_bt_const_bytes gs_device_bt_const_roundtrip)

lemma unat_prescaler:
  fixes bitrate clk :: u32
  assumes "unat bitrate * 16 < 2 ^ 32"
  shows "unat (clk div (bitrate * 16)) = unat clk div (unat bitrate * 16)"
proof -
  have "unat (bitrate * 16) = unat bitrate * 16"
    using assms by (simp add: unat_word_ariths)
  then show ?thesis
    by (simp add: unat_div)
qed

text \<open>For a bitrate above 0 and below \<open>2^28\<close> the product does not wrap and is not zero.\<close>

lemma small_bitrate_product:
  fixes bitrate :: u32
  assumes "0 < bitrate" and "unat bitrate * 16 < 2 ^ 32"
  shows "bitrate * 16 \<noteq> 0"
proof -
  have "unat (bitrate * 16) = unat bitrate * 16"
    using assms(2) by (simp add: unat_word_ariths)
  moreover have "0 < unat bitrate"
    using assms(1) by (simp add: word_less_nat_alt)
  ultimately show ?thesis
    by (metis mult_eq_0_iff not_less_zero unat_0 zero_neq_numeral)
qed

text \<open>
  Claim C2. With an open handle and the constants read from the device, for every bitrate
  above 0 for which the prescaler can be computed, that is, whose 32-bit product with 16 is
  not zero, \<open>usb_can_set_bitrate\<close> writes the bit-timing record with \<open>prop_seg = 0\<close>,
  \<open>phase_seg1 = 13\<close>, \<open>phase_seg2 = 2\<close>, \<open>sjw = 1\<close> and
  \<open>brp = fclk_can / (bitrate * 16)\<close>, the quotient truncated, and returns the result of
  that transfer. The product is a \<open>uint32_t\<close>; whenever it does not wrap, which is the case
  for every bitrate below \<open>2^28\<close>, the prescaler is the quotient of the numbers themselves.
  For a clock of 48,000,000 and a bitrate of 500,000 it is 6.
\<close>

theorem set_bitrate_writes_fixed_timing:
  assumes "device_handle s = Some h"
    and "ctrl_in w (length (ctrl_in_log w)) = Xfer st (gs_device_bt_const_bytes c)"
    and "0 \<le> st"
    and "0 < bitrate"
    and "bitrate * 16 \<noteq> 0"
  shows "usb_can_set_bitrate s w bitrate =
           Inr (ctrl_out w (length (ctrl_out_log w)),
                w\<lparr>ctrl_in_log := ctrl_in_log w @ [GS_USB_BREQ_BT_CONST],
                  ctrl_out_log := ctrl_out_log w @
                    [(GS_USB_BREQ_BITTIMING,
                      gs_device_bittiming_bytes
                        \<lparr>prop_seg = 0, phase_seg1 = 13, phase_seg2 = 2, sjw = 1,
                         brp = fclk_can c div (bitrate * 16)\<rparr>)]\<rparr>)
         \<and> (unat bitrate * 16 < 2 ^ 32 \<longrightarrow>
              unat (fclk_can c div (bitrate * 16)) = unat (fclk_can c) div (unat bitrate * 16))
         \<and> (fclk_can c = 48000000 \<and> bitrate = 500000 \<longrightarrow> fclk_can c div (bitrate * 16) = 6)"
proof -
  have written: "usb_can_set_bitrate s w bitrate =
           Inr (ctrl_out w (length (ctrl_out_log w)),
                w\<lparr>ctrl_in_log := ctrl_in_log w @ [GS_USB_BREQ_BT_CONST],
                  ctrl_out_log := ctrl_out_log w @
                    [(GS_USB_BREQ_BITTIMING,
                      gs_device_bittiming_bytes
                        \<lparr>prop_seg = 0, phase_seg1 = 13, phase_seg2 = 2, sjw = 1,
                         brp = fclk_can c div (bitrate * 16)\<rparr>)]\<rparr>)"
    using set_bitrate_open [OF assms(1-3,5)] by (simp add: bittiming_of_def)
  have exact: "unat bitrate * 16 < 2 ^ 32 \<longrightarrow>
              unat (fclk_can c div (bitrate * 16)) = unat (fclk_can c) div (unat bitrate * 16)"
    using unat_prescaler [of bitrate "fclk_can c"] by simp
  have example: "fclk_can c = 48000000 \<and> bitrate = 500000 \<longrightarrow> fclk_can c div (bitrate * 16) = 6"
    by auto
  show ?thesis
    using written exact example by blast
qed

theorem set_bitrate_writes_fixed_timing_witness:
  "usb_can_set_bitrate s_open bt_world 500000 =
     Inr (0, bt_world\<lparr>ctrl_in_log := [GS_USB_BREQ_BT_CONST],
                      ctrl_out_log :=
                        [(GS_USB_BREQ_BITTIMING,
                          gs_device_bittiming_bytes
                            \<lparr>prop_seg = 0, phase_seg1 = 13, phase_seg2 = 2, sjw = 1, brp = 6\<rparr>)]\<rparr>)
   \<and> unat (48000000 div (500000 * 16) :: u32) = 48000000 div (500000 * 16)"
proof -
  have h1: "device_handle s_open = Some 1"
    by (simp add: s_open_def)
  have h2: "ctrl_in bt_world (length (ctrl_in_log bt_world)) = Xfer 40 (gs_device_bt_const_bytes candle_bt_const)"
    by (simp add: bt_world_def)
  have h3: "(0::int) \<le> 40"
    by simp
  have h4: "(0 :: u32) < 500000" and h5: "(500000 :: u32) * 16 \<noteq> 0"
    by simp_all
  have c: "fclk_can candle_bt_const = 48000000"
    by (simp add: candle_bt_const_def)
  show ?thesis
    using set_bitrate_writes_fixed_timing [OF h1 h2 h3 h4 h5]
    by (simp add: c bt_world_def idle_world_def)
qed

text \<open>A bitrate of 0 is not checked either: the division is by zero.\<close>

lemma set_bitrate_zero:
  assumes "device_handle s = Some h"
    and "ctrl_in w (length (ctrl_in_log w)) = Xfer st bs" and "0 \<le> st"
  shows "usb_can_set_bitrate s w 0 = Inl DivByZero"
  using assms by (simp add: usb_can_set_bitrate_def control_in_def)

text \<open>
  Claim C3, as amended. \<open>usb_can_set_bitrate\<close> validates nothing. It returns -1, without
  a transfer, only when no handle is open, and the negative code of the constants read,
  without writing the register, when that read fails. Otherwise, for every bitrate whose
  32-bit product with 16 is not zero, it transmits the bit-timing register with the
  computed prescaler, whatever minimum, maximum and increment the device reported, and
  returns the result of that transfer.
\<close>

theorem set_bitrate_unvalidated:
  "(device_handle s = None \<longrightarrow> usb_can_set_bitrate s w bitrate = Inr (-1, w))
   \<and> (device_handle s = Some h \<and> ctrl_in w (length (ctrl_in_log w)) = Xfer st bs \<and> st < 0 \<longrightarrow>
        usb_can_set_bitrate s w bitrate =
          Inr (st, w\<lparr>ctrl_in_log := ctrl_in_log w @ [GS_USB_BREQ_BT_CONST]\<rparr>))
   \<and> (device_handle s = Some h
        \<and> ctrl_in w (length (ctrl_in_log w)) = Xfer st (gs_device_bt_const_bytes c) \<and> 0 \<le> st
        \<and> bitrate * 16 \<noteq> 0 \<longrightarrow>
        usb_can_set_bitrate s w bitrate =
          Inr (ctrl_out w (length (ctrl_out_log w)),
               w\<lparr>ctrl_in_log := ctrl_in_log w @ [GS_USB_BREQ_BT_CONST],
                 ctrl_out_log := ctrl_out_log w @
                   [(GS_USB_BREQ_BITTIMING,
                     gs_device_bittiming_bytes
                       \<lparr>prop_seg = 0, phase_seg1 = 13, phase_seg2 = 2, sjw = 1,
                        brp = fclk_can c div (bitrate * 16)\<rparr>)]\<rparr>))"
  using set_bitrate_closed [of s w bitrate] set_bitrate_read_fails [of s h w st bs bitrate]
    set_bitrate_open [of s h w st c bitrate]
  by (simp add: bittiming_of_def)


theorem set_bitrate_unvalidated_witness:
  "usb_can_set_bitrate s_closed bt_world 500000 = Inr (-1, bt_world)
   \<and> usb_can_set_bitrate s_open idle_world 500000 =
       Inr (-7, idle_world\<lparr>ctrl_in_log := [GS_USB_BREQ_BT_CONST]\<rparr>)
   \<and> usb_can_set_bitrate s_open bt_world 3000001 =
       Inr (0, bt_world\<lparr>ctrl_in_log := [GS_USB_BREQ_BT_CONST],
                        ctrl_out_log :=
                          [(GS_USB_BREQ_BITTIMING,
                            gs_device_bittiming_bytes
                              \<lparr>prop_seg = 0, phase_seg1 = 13, phase_seg2 = 2, sjw = 1, brp = 0\<rparr>)]\<rparr>)"
proof -
  have a: "device_handle s_closed = None"
    by (simp add: s_closed_def)
  have b: "device_handle s_open = Some 1 \<and> ctrl_in idle_world (length (ctrl_in_log idle_world)) = Xfer (-7) []
             \<and> (-7 :: int) < 0"
    by (simp add: s_open_def idle_world_def)
  have c: "device_handle s_open = Some 1
        \<and> ctrl_in bt_world (length (ctrl_in_log bt_world)) = Xfer 40 (gs_device_bt_const_bytes candle_bt_const)
        \<and> (0::int) \<le> 40 \<and> (3000001 :: u32) * 16 \<noteq> 0"
    by (simp add: s_open_def bt_world_def)
  have f: "fclk_can candle_bt_const = 48000000"
    by (simp add: candle_bt_const_def)
  show ?thesis
    using set_bitrate_unvalidated [where s = s_closed and w = bt_world and bitrate = 500000] a
      set_bitrate_unvalidated [where s = s_open and h = 1 and w = idle_world and st = "-7"
                                 and bs = "[]" and bitrate = 500000] b
      set_bitrate_unvalidated [where s = s_open and h = 1 and w = bt_world and st = 40
                                 and c = candle_bt_const and bitrate = 3000001] c
    by (simp add: f bt_world_def idle_world_def)
qed

text \<open>
  Claim C3 as stated fails: for a bitrate of 48,000,000 on a 48 MHz clock the prescaler
  is 0, below the reported minimum of 1, and the register is transmitted all the same;
  the call returns 0.
\<close>

theorem set_bitrate_below_brp_min_counterexample:
  "brp_min candle_bt_const = 1
   \<and> usb_can_set_bitrate s_open bt_world 48000000 =
       Inr (0, bt_world\<lparr>ctrl_in_log := [GS_USB_BREQ_BT_CONST],
                        ctrl_out_log :=
                          [(GS_USB_BREQ_BITTIMING,
                            gs_device_bittiming_bytes
                              \<lparr>prop_seg = 0, phase_seg1 = 13, phase_seg2 = 2, sjw = 1, brp = 0\<rparr>)]\<rparr>)"
proof -
  have c: "device_handle s_open = Some 1"
    "ctrl_in bt_world (length (ctrl_in_log bt_world)) = Xfer 40 (gs_device_bt_const_bytes candle_bt_const)"
    "(0::int) \<le> 40" "(48000000 :: u32) * 16 \<noteq> 0"
    by (simp_all add: s_open_def bt_world_def)
  show ?thesis
    using set_bitrate_open [OF c]
    by (simp add: candle_bt_const_def bittiming_of_def bt_world_def idle_world_def)
qed

section \<open>The session state (claim C4)\<close>

lemma stop_open:
  "device_handle s = Some h \<Longrightarrow>
     usb_can_stop s w =
       (ctrl_out w (length (ctrl_out_log w)),
        w\<lparr>ctrl_out_log := ctrl_out_log w @
             [(GS_USB_BREQ_MODE, gs_device_mode_bytes \<lparr>dm_mode = 0, dm_flags = 0\<rparr>)]\<rparr>)"
  by (simp add: usb_can_stop_def control_out_def GS_CAN_MODE_RESET_def)

text \<open>
  Claim C4, as amended. The library keeps no record of whether the channel was started:
  the only state the functions test is the device handle. Without an open handle
  \<open>usb_can_send_frame\<close>, \<open>usb_can_receive_frame\<close>, \<open>usb_can_set_bitrate\<close> and
  \<open>usb_can_stop\<close> return -1 and do nothing. With an open handle, whatever was sent to the
  device before: \<open>usb_can_stop\<close> always transmits the reset mode record and returns the
  result of that transfer; \<open>usb_can_send_frame\<close> hands a frame of a length of at most 8,
  within the caller's array, to the bulk pipe and returns its result;
  \<open>usb_can_receive_frame\<close>, with non-null arguments, performs one bulk transfer and
  returns its negative status with the outputs untouched, or 0 with the fields of the
  frame received when its \<open>can_dlc\<close> is at most 8 and no more than the data buffer holds
  (beyond that the copy leaves the arrays, the fault of claim C6); \<open>usb_can_set_bitrate\<close>
  reads the constants and returns the negative code of a failed read, or else, when the
  32-bit product of the bitrate with 16 is not zero, writes the bit-timing register and
  returns the result of that transfer.
\<close>

theorem no_running_state_check:
  "(device_handle s = None \<longrightarrow>
       usb_can_send_frame s w cid dat len = Inr (-1, w)
     \<and> usb_can_receive_frame s w a = Inr (-1, a, w)
     \<and> usb_can_set_bitrate s w bitrate = Inr (-1, w)
     \<and> usb_can_stop s w = (-1, w))
   \<and> (device_handle s = Some h \<longrightarrow>
       usb_can_stop s w =
         (ctrl_out w (length (ctrl_out_log w)),
          w\<lparr>ctrl_out_log := ctrl_out_log w @
               [(GS_USB_BREQ_MODE, gs_device_mode_bytes \<lparr>dm_mode = 0, dm_flags = 0\<rparr>)]\<rparr>)
     \<and> (len \<le> 8 \<and> unat len \<le> length src \<longrightarrow>
          usb_can_send_frame s w cid (Some src) len =
            Inr (data_out w (gs_host_frame_bytes
                   (zero_frame\<lparr>can_id := cid, can_dlc := len,
                      data := take (unat len) src @ drop (unat len) (replicate 8 0)\<rparr>))))
     \<and> (bulk_in w (rx_count w) = Xfer st bs \<longrightarrow>
          usb_can_receive_frame s w
            \<lparr>p_can_id = Some c0, p_data = Some dst, p_length = Some l0, p_timestamp = Some t0\<rparr> =
            (if st < 0
             then Inr (st,
                       \<lparr>p_can_id = Some c0, p_data = Some dst, p_length = Some l0,
                        p_timestamp = Some t0\<rparr>,
                       w\<lparr>rx_count := Suc (rx_count w)\<rparr>)
             else if unat (can_dlc (frame_received bs)) \<le> 8
                     \<and> unat (can_dlc (frame_received bs)) \<le> length dst
             then Inr (0,
                       \<lparr>p_can_id = Some (can_id (frame_received bs)),
                        p_data = Some (take (unat (can_dlc (frame_received bs))) (data (frame_received bs))
                                        @ drop (unat (can_dlc (frame_received bs))) dst),
                        p_length = Some (can_dlc (frame_received bs)),
                        p_timestamp = Some (timestamp_us (frame_received bs))\<rparr>,
                       w\<lparr>rx_count := Suc (rx_count w)\<rparr>)
             else Inl OutOfBounds))
     \<and> (ctrl_in w (length (ctrl_in_log w)) = Xfer ct cbs \<and> ct < 0 \<longrightarrow>
          usb_can_set_bitrate s w bitrate =
            Inr (ct, w\<lparr>ctrl_in_log := ctrl_in_log w @ [GS_USB_BREQ_BT_CONST]\<rparr>))
     \<and> (ctrl_in w (length (ctrl_in_log w)) = Xfer ct (gs_device_bt_const_bytes c) \<and> 0 \<le> ct
          \<and> bitrate * 16 \<noteq> 0 \<longrightarrow>
          usb_can_set_bitrate s w bitrate =
            Inr (ctrl_out w (length (ctrl_out_log w)),
                 w\<lparr>ctrl_in_log := ctrl_in_log w @ [GS_USB_BREQ_BT_CONST],
                   ctrl_out_log := ctrl_out_log w @
                     [(GS_USB_BREQ_BITTIMING,
                       gs_device_bittiming_bytes
                         \<lparr>prop_seg = 0, phase_seg1 = 13, phase_seg2 = 2, sjw = 1,
                          brp = fclk_can c div (bitrate * 16)\<rparr>)]\<rparr>)))"
proof -
  have closed: "device_handle s = None \<Longrightarrow>
       usb_can_send_frame s w cid dat len = Inr (-1, w)
     \<and> usb_can_receive_frame s w a = Inr (-1, a, w)
     \<and> usb_can_set_bitrate s w bitrate = Inr (-1, w)
     \<and> usb_can_stop s w = (-1, w)"
    by (simp add: send_frame_rejects set_bitrate_closed usb_can_stop_def usb_can_receive_frame_def
          split: option.splits)
  have rx: "device_handle s = Some h \<Longrightarrow> bulk_in w (rx_count w) = Xfer st bs \<Longrightarrow>
          usb_can_receive_frame s w
            \<lparr>p_can_id = Some c0, p_data = Some dst, p_length = Some l0, p_timestamp = Some t0\<rparr> =
            (if st < 0
             then Inr (st,
                       \<lparr>p_can_id = Some c0, p_data = Some dst, p_length = Some l0,
                        p_timestamp = Some t0\<rparr>,
                       w\<lparr>rx_count := Suc (rx_count w)\<rparr>)
             else if unat (can_dlc (frame_received bs)) \<le> 8
                     \<and> unat (can_dlc (frame_received bs)) \<le> length dst
             then Inr (0,
                       \<lparr>p_can_id = Some (can_id (frame_received bs)),
                        p_data = Some (take (unat (can_dlc (frame_received bs))) (data (frame_received bs))
                                        @ drop (unat (can_dlc (frame_received bs))) dst),
                        p_length = Some (can_dlc (frame_received bs)),
                        p_timestamp = Some (timestamp_us (frame_received bs))\<rparr>,
                       w\<lparr>rx_count := Suc (rx_count w)\<rparr>)
             else Inl OutOfBounds)"
    by (rule receive_frame_cases [OF _ refl])
  have sb: "device_handle s = Some h \<Longrightarrow>
            ctrl_in w (length (ctrl_in_log w)) = Xfer ct (gs_device_bt_const_bytes c) \<and> 0 \<le> ct
              \<and> bitrate * 16 \<noteq> 0 \<Longrightarrow>
          usb_can_set_bitrate s w bitrate =
            Inr (ctrl_out w (length (ctrl_out_log w)),
                 w\<lparr>ctrl_in_log := ctrl_in_log w @ [GS_USB_BREQ_BT_CONST],
                   ctrl_out_log := ctrl_out_log w @
                     [(GS_USB_BREQ_BITTIMING,
                       gs_device_bittiming_bytes
                         \<lparr>prop_seg = 0, phase_seg1 = 13, phase_seg2 = 2, sjw = 1,
                          brp = fclk_can c div (bitrate * 16)\<rparr>)]\<rparr>)"
    using set_bitrate_open [of s h w ct c bitrate] by (simp add: bittiming_of_def)
  show ?thesis
    using closed stop_open [of s h w] send_frame_open [of s h len src w cid] rx
      set_bitrate_read_fails [of s h w ct cbs bitrate] sb
    by (intro conjI impI) simp_all
qed

theorem no_running_state_check_witness:
  "usb_can_send_frame s_closed idle_world 0x123 (Some [1, 2, 3]) 3 = Inr (-1, idle_world)
   \<and> usb_can_stop s_open idle_world =
       (0, idle_world\<lparr>ctrl_out_log := [(GS_USB_BREQ_MODE, gs_device_mode_bytes \<lparr>dm_mode = 0, dm_flags = 0\<rparr>)]\<rparr>)
   \<and> usb_can_send_frame s_open idle_world 0x123 (Some [1, 2, 3]) 3 =
       Inr (data_out idle_world (gs_host_frame_bytes
              (zero_frame\<lparr>can_id := 0x123, can_dlc := 3, data := [1, 2, 3, 0, 0, 0, 0, 0]\<rparr>)))
   \<and> usb_can_receive_frame s_open ts_less_rx_world
         \<lparr>p_can_id = Some 0, p_data = Some (replicate 8 0), p_length = Some 0, p_timestamp = Some 0\<rparr> =
       Inr (0,
            \<lparr>p_can_id = Some 0x7E8, p_data = Some [0x04, 0x41, 0x0C, 0x1A, 0xF8, 0, 0, 0],
             p_length = Some 5, p_timestamp = Some 0\<rparr>,
            ts_less_rx_world\<lparr>rx_count := 1\<rparr>)
   \<and> usb_can_set_bitrate s_open idle_world 500000 =
       Inr (-7, idle_world\<lparr>ctrl_in_log := [GS_USB_BREQ_BT_CONST]\<rparr>)
   \<and> usb_can_set_bitrate s_open bt_world 500000 =
       Inr (0, bt_world\<lparr>ctrl_in_log := [GS_USB_BREQ_BT_CONST],
                        ctrl_out_log :=
                          [(GS_USB_BREQ_BITTIMING,
                            gs_device_bittiming_bytes
                              \<lparr>prop_seg = 0, phase_seg1 = 13, phase_seg2 = 2, sjw = 1, brp = 6\<rparr>)]\<rparr>)"
proof -
  let ?bs = "[0xFF, 0xFF, 0xFF, 0xFF, 0xE8, 0x07, 0, 0, 5, 0, 0, 0,
              0x04, 0x41, 0x0C, 0x1A, 0xF8, 0, 0, 0] :: u8 list"
  have a: "device_handle s_closed = None" and b: "device_handle s_open = Some 1"
    by (simp_all add: s_closed_def s_open_def)
  have l: "(3 :: u8) \<le> 8 \<and> unat (3 :: u8) \<le> length [1, 2, 3 :: u8]"
    by simp
  have rx: "bulk_in ts_less_rx_world (rx_count ts_less_rx_world) = Xfer 0 ?bs"
    by (simp add: ts_less_rx_world_def idle_world_def)
  have r0: "rx_count ts_less_rx_world = 0"
    by (simp add: ts_less_rx_world_def idle_world_def)
  have fail: "ctrl_in idle_world (length (ctrl_in_log idle_world)) = Xfer (-7) [] \<and> (-7 :: int) < 0"
    by (simp add: idle_world_def)
  have ok: "ctrl_in bt_world (length (ctrl_in_log bt_world)) = Xfer 40 (gs_device_bt_const_bytes candle_bt_const)
              \<and> (0::int) \<le> 40 \<and> (500000 :: u32) * 16 \<noteq> 0"
    by (simp add: bt_world_def)
  have f: "fclk_can candle_bt_const = 48000000"
    by (simp add: candle_bt_const_def)
  show ?thesis
    using no_running_state_check [where s = s_closed and w = idle_world and cid = "0x123"
                                    and dat = "Some [1, 2, 3]" and len = 3] a
      no_running_state_check [where s = s_open and w = idle_world and h = 1 and cid = "0x123"
                                and len = 3 and src = "[1, 2, 3]" and ct = "-7" and cbs = "[]"
                                and bitrate = 500000] b l fail
      no_running_state_check [where s = s_open and w = ts_less_rx_world and h = 1
                                and st = 0 and bs = ?bs
                                and ?c0.0 = 0 and dst = "replicate 8 0" and ?l0.0 = 0 and ?t0.0 = 0]
        rx
      no_running_state_check [where s = s_open and w = bt_world and h = 1 and bitrate = 500000
                                and ct = 40 and c = candle_bt_const] ok
    by (simp add: f r0 frame_received_ts_less idle_world_def bt_world_def replicate_pos)
qed

text \<open>
  Claim C4 as stated fails. Nothing has been sent to the device, so the channel was never
  started, and \<open>usb_can_send_frame\<close> sends the frame and returns 24; and after a
  successful \<open>usb_can_start\<close>, \<open>usb_can_set_bitrate\<close> writes the bit-timing register
  and returns 0.
\<close>

theorem send_before_start_counterexample:
  "ctrl_out_log idle_world = []
   \<and> usb_can_send_frame s_open idle_world 0x123 (Some [1, 2, 3]) 3 =
       Inr (24, idle_world\<lparr>tx_log :=
              [gs_host_frame_bytes
                 \<lparr>echo_id = 0, can_id = 0x123, can_dlc = 3, channel = 0, flags = 0, reserved = 0,
                  data = [1, 2, 3, 0, 0, 0, 0, 0], timestamp_us = 0\<rparr>]\<rparr>)
   \<and> usb_can_start s_open bt_world 0 =
       (0, bt_world\<lparr>ctrl_out_log :=
             [(GS_USB_BREQ_MODE, gs_device_mode_bytes \<lparr>dm_mode = 1, dm_flags = 16\<rparr>)]\<rparr>)
   \<and> usb_can_set_bitrate s_open
         (bt_world\<lparr>ctrl_out_log :=
             [(GS_USB_BREQ_MODE, gs_device_mode_bytes \<lparr>dm_mode = 1, dm_flags = 16\<rparr>)]\<rparr>) 500000 =
       Inr (0, bt_world\<lparr>ctrl_in_log := [GS_USB_BREQ_BT_CONST],
              ctrl_out_log :=
                [(GS_USB_BREQ_MODE, gs_device_mode_bytes \<lparr>dm_mode = 1, dm_flags = 16\<rparr>),
                 (GS_USB_BREQ_BITTIMING, gs_device_bittiming_bytes (bittiming_of 6))]\<rparr>)"
proof -
  have h: "device_handle s_open = Some 1"
    by (simp add: s_open_def)
  have s1: "usb_can_send_frame s_open idle_world 0x123 (Some [1, 2, 3]) 3 =
       Inr (24, idle_world\<lparr>tx_log :=
              [gs_host_frame_bytes
                 \<lparr>echo_id = 0, can_id = 0x123, can_dlc = 3, channel = 0, flags = 0, reserved = 0,
                  data = [1, 2, 3, 0, 0, 0, 0, 0], timestamp_us = 0\<rparr>]\<rparr>)"
    using send_frame_open [OF h, of 3 "[1, 2, 3]" idle_world "0x123"]
    by (simp add: data_out_def zero_frame_def replicate_pos idle_world_def)
  have s2: "usb_can_start s_open bt_world 0 =
       (0, bt_world\<lparr>ctrl_out_log :=
             [(GS_USB_BREQ_MODE, gs_device_mode_bytes \<lparr>dm_mode = 1, dm_flags = 16\<rparr>)]\<rparr>)"
    by (simp add: usb_can_start_def control_out_def s_open_def bt_world_def idle_world_def
          GS_CAN_MODE_START_def GS_CAN_MODE_HW_TIMESTAMP_FLAG_def)
  let ?w = "bt_world\<lparr>ctrl_out_log :=
             [(GS_USB_BREQ_MODE, gs_device_mode_bytes \<lparr>dm_mode = 1, dm_flags = 16\<rparr>)]\<rparr>"
  have c: "ctrl_in ?w (length (ctrl_in_log ?w)) = Xfer 40 (gs_device_bt_const_bytes candle_bt_const)"
    "(0::int) \<le> 40" "(500000 :: u32) * 16 \<noteq> 0"
    by (simp_all add: bt_world_def)
  have s3: "usb_can_set_bitrate s_open ?w 500000 =
       Inr (0, bt_world\<lparr>ctrl_in_log := [GS_USB_BREQ_BT_CONST],
              ctrl_out_log :=
                [(GS_USB_BREQ_MODE, gs_device_mode_bytes \<lparr>dm_mode = 1, dm_flags = 16\<rparr>),
                 (GS_USB_BREQ_BITTIMING, gs_device_bittiming_bytes (bittiming_of 6))]\<rparr>)"
    using set_bitrate_open [OF h c]
    by (simp add: candle_bt_const_def bt_world_def idle_world_def)
  show ?thesis
    using s1 s2 s3 by (simp add: idle_world_def)
qed

section \<open>Cleanup (claim C9)\<close>

lemma cleanup_twice:
  "usb_can_cleanup (fst (usb_can_cleanup s w)) (snd (usb_can_cleanup s w)) = usb_can_cleanup s w"
  by (simp add: usb_can_cleanup_def split: option.splits)

lemma cleanup_times_Suc: "cleanup_times (Suc n) (s, w) = usb_can_cleanup s w"
proof (induction n)
  case 0
  show ?case by (simp add: cleanup_times_def)
next
  case (Suc n)
  have "cleanup_times (Suc (Suc n)) (s, w) =
          usb_can_cleanup (fst (cleanup_times (Suc n) (s, w))) (snd (cleanup_times (Suc n) (s, w)))"
    by (simp add: cleanup_times_def case_prod_beta)
  then show ?case
    by (simp add: Suc.IH cleanup_twice)
qed

text \<open>
  Claim C9. \<open>usb_can_cleanup\<close> is idempotent: called any number of times in a row, at
  least once, it leaves the state and the transport as a single call does. The first call
  closes the handle if one is open and clears it, so \<open>libusb_close\<close> runs once for an open
  handle and not at all without one, and no later call closes anything. The function
  returns nothing and cannot fail.
\<close>

theorem cleanup_idempotent:
  "cleanup_times (Suc n) (s, w) = usb_can_cleanup s w
   \<and> usb_can_cleanup (fst (usb_can_cleanup s w)) (snd (usb_can_cleanup s w)) = usb_can_cleanup s w
   \<and> device_handle (fst (usb_can_cleanup s w)) = None
   \<and> close_log (snd (usb_can_cleanup s w))
        = close_log w @ (case device_handle s of Some h \<Rightarrow> [h] | None \<Rightarrow> [])
   \<and> close_log (snd (cleanup_times (Suc n) (s, w)))
        = close_log w @ (case device_handle s of Some h \<Rightarrow> [h] | None \<Rightarrow> [])"
proof -
  have cleared: "device_handle (fst (usb_can_cleanup s w)) = None"
    by (simp add: usb_can_cleanup_def split: option.splits)
  have closed: "close_log (snd (usb_can_cleanup s w))
                  = close_log w @ (case device_handle s of Some h \<Rightarrow> [h] | None \<Rightarrow> [])"
    by (simp add: usb_can_cleanup_def split: option.splits)
  have again: "close_log (snd (cleanup_times (Suc n) (s, w)))
                  = close_log w @ (case device_handle s of Some h \<Rightarrow> [h] | None \<Rightarrow> [])"
    unfolding cleanup_times_Suc by (rule closed)
  show ?thesis
    using cleanup_times_Suc [of n s w] cleanup_twice [of s w] cleared closed again by simp
qed

section \<open>Purging the receive queue (claim C10)\<close>

lemma data_in_result:
  "fst (data_in w buf sz) \<ge> 0 \<longleftrightarrow> status (bulk_in w (rx_count w)) \<ge> 0"
  "snd (snd (data_in w buf sz)) = w\<lparr>rx_count := Suc (rx_count w)\<rparr>"
  by (simp_all add: data_in_def Let_def split: xfer.splits)

lemma purge_loop_stops:
  "status (bulk_in w (rx_count w)) < 0 \<Longrightarrow>
     purge_loop w buf p = Some (Inr (p, w\<lparr>rx_count := Suc (rx_count w)\<rparr>))"
  by (subst purge_loop.simps) (simp add: data_in_result Let_def)

lemma purge_loop_continues:
  "0 \<le> status (bulk_in w (rx_count w)) \<Longrightarrow> p \<noteq> 2147483647 \<Longrightarrow>
     purge_loop w buf p =
       purge_loop (w\<lparr>rx_count := Suc (rx_count w)\<rparr>) (fst (snd (data_in w buf 24))) (p + 1)"
  by (subst purge_loop.simps) (simp add: data_in_result Let_def)

lemma purge_loop_count:
  assumes "status (bulk_in w (rx_count w + n)) < 0"
    and "\<forall>i<n. 0 \<le> status (bulk_in w (rx_count w + i))"
    and "p + int n \<le> 2147483647"
  shows "purge_loop w buf p = Some (Inr (p + int n, w\<lparr>rx_count := rx_count w + n + 1\<rparr>))"
  using assms
proof (induction n arbitrary: w buf p)
  case 0
  then show ?case
    by (simp add: purge_loop_stops)
next
  case (Suc n)
  let ?w = "w\<lparr>rx_count := Suc (rx_count w)\<rparr>"
  have first: "0 \<le> status (bulk_in w (rx_count w))"
    using Suc.prems(2) by (metis add.right_neutral zero_less_Suc)
  have p: "p \<noteq> 2147483647"
    using Suc.prems(3) by simp
  have a: "status (bulk_in ?w (rx_count ?w + n)) < 0"
    using Suc.prems(1) by simp
  have b: "\<forall>i<n. 0 \<le> status (bulk_in ?w (rx_count ?w + i))"
  proof (intro allI impI)
    fix i assume "i < n"
    then have "0 \<le> status (bulk_in w (rx_count w + Suc i))"
      using Suc.prems(2) [rule_format, of "Suc i"] by simp
    then show "0 \<le> status (bulk_in ?w (rx_count ?w + i))"
      by simp
  qed
  have c: "(p + 1) + int n \<le> 2147483647"
    using Suc.prems(3) by simp
  show ?case
    using Suc.IH [OF a b c] purge_loop_continues [OF first p]
    by simp
qed

lemma purge_loop_lower:
  assumes "purge_loop w buf p = Some y"
  shows "\<forall>r w'. y = Inr (r, w') \<longrightarrow> p \<le> r"
proof (rule purge_loop.raw_induct
         [where P = "\<lambda>w buf p y. \<forall>r w'. y = Inr (r, w') \<longrightarrow> p \<le> r", OF _ assms])
  fix loop :: "world \<Rightarrow> u8 list \<Rightarrow> int \<Rightarrow> (fault + int \<times> world) option"
    and w frame purged y
  assume IH: "\<And>w frame purged y. loop w frame purged = Some y \<Longrightarrow>
                \<forall>r w'. y = Inr (r, w') \<longrightarrow> purged \<le> r"
    and eq: "(let r = data_in w frame 24
              in if 0 \<le> fst r
                 then if purged = 2147483647 then Some (Inl IntOverflow)
                      else loop (snd (snd r)) (fst (snd r)) (purged + 1)
                 else Some (Inr (purged, snd (snd r)))) = Some y"
  show "\<forall>r w'. y = Inr (r, w') \<longrightarrow> purged \<le> r"
  proof (cases "0 \<le> fst (data_in w frame 24)")
    case False
    then show ?thesis
      using eq by (auto simp add: Let_def)
  next
    case True
    show ?thesis
    proof (cases "purged = 2147483647")
      case True
      then show ?thesis
        using eq \<open>0 \<le> fst (data_in w frame 24)\<close> by (auto simp add: Let_def)
    next
      case False
      then have "loop (snd (snd (data_in w frame 24))) (fst (snd (data_in w frame 24))) (purged + 1) = Some y"
        using eq True by (simp add: Let_def)
      then have "\<forall>r w'. y = Inr (r, w') \<longrightarrow> purged + 1 \<le> r"
        by (rule IH)
      then show ?thesis
        by auto
    qed
  qed
qed

lemma purge_loop_nonneg:
  "purge_loop w buf 0 = Some (Inr (r, w')) \<Longrightarrow> 0 \<le> r"
  using purge_loop_lower [of w buf 0 "Inr (r, w')"] by simp

text \<open>
  Claim C10. With an open handle \<open>usb_can_purge_rx_queue\<close> never returns a negative
  number. The first receive attempt that fails, with a timeout or with any other negative
  status, ends the loop, and the function returns the number of attempts that succeeded
  before it; the count is an \<open>int\<close>, so this is stated for fewer than \<open>2^31\<close> frames.
\<close>

theorem purge_rx_queue_counts:
  assumes "device_handle s = Some h"
  shows "(usb_can_purge_rx_queue s w = Some (Inr (r, w')) \<longrightarrow> 0 \<le> r)
       \<and> (status (bulk_in w (rx_count w + n)) < 0
            \<and> (\<forall>i<n. 0 \<le> status (bulk_in w (rx_count w + i))) \<and> n < 2 ^ 31 \<longrightarrow>
          usb_can_purge_rx_queue s w =
            Some (Inr (int n, w\<lparr>rx_count := rx_count w + n + 1\<rparr>)))"
proof (intro conjI impI)
  assume "usb_can_purge_rx_queue s w = Some (Inr (r, w'))"
  then have "purge_loop w (map (indet w) [0..<24]) 0 = Some (Inr (r, w'))"
    using assms by (simp add: usb_can_purge_rx_queue_def)
  then show "0 \<le> r"
    by (rule purge_loop_nonneg)
next
  assume a: "status (bulk_in w (rx_count w + n)) < 0
            \<and> (\<forall>i<n. 0 \<le> status (bulk_in w (rx_count w + i))) \<and> n < 2 ^ 31"
  then have "0 + int n \<le> 2147483647"
    by simp
  with a have "purge_loop w (map (indet w) [0..<24]) 0
         = Some (Inr (0 + int n, w\<lparr>rx_count := rx_count w + n + 1\<rparr>))"
    by (intro purge_loop_count) simp_all
  then show "usb_can_purge_rx_queue s w =
            Some (Inr (int n, w\<lparr>rx_count := rx_count w + n + 1\<rparr>))"
    using assms by (simp add: usb_can_purge_rx_queue_def)
qed

theorem purge_rx_queue_counts_witness:
  "usb_can_purge_rx_queue s_open purge_world = Some (Inr (2, purge_world\<lparr>rx_count := 3\<rparr>))
   \<and> (0 :: int) \<le> 2"
proof -
  have h: "device_handle s_open = Some 1"
    by (simp add: s_open_def)
  have a: "status (bulk_in purge_world (rx_count purge_world + 2)) < 0
            \<and> (\<forall>i<2. 0 \<le> status (bulk_in purge_world (rx_count purge_world + i))) \<and> (2::nat) < 2 ^ 31"
    by (simp add: purge_world_def idle_world_def)
  have r: "rx_count purge_world = 0"
    by (simp add: purge_world_def idle_world_def)
  have e: "usb_can_purge_rx_queue s_open purge_world = Some (Inr (2, purge_world\<lparr>rx_count := 3\<rparr>))"
    using purge_rx_queue_counts [OF h, of purge_world _ _ 2] a
    by (simp add: r)
  show ?thesis
    using purge_rx_queue_counts [OF h, of purge_world 2 "purge_world\<lparr>rx_count := 3\<rparr>"] e
    by simp
qed

section \<open>The supported-PID bitmap (claim C7)\<close>

lemma and_7_nat: "(i :: nat) AND 7 = i mod 8"
proof -
  have m: "mask 3 = (7 :: nat)"
    by (simp add: mask_eq_exp_minus_1)
  have "i AND mask 3 = i mod 2 ^ 3"
    by (simp only: take_bit_eq_mask [symmetric] take_bit_eq_mod)
  then show ?thesis
    unfolding m by simp
qed

lemma msb_first_test:
  fixes b :: u8
  assumes "k < 8"
  shows "(uint b AND drop_bit k (0x80 :: int)) \<noteq> 0 \<longleftrightarrow> bit b (7 - k)"
proof -
  have "(0x80 :: int) = 2 ^ 7"
    by simp
  then have "drop_bit k (0x80 :: int) = 2 ^ (7 - k)"
    using assms by (simp only: drop_bit_exp_eq) simp
  moreover have "7 - k < 8"
    by arith
  ultimately show ?thesis
    by (simp add: and_exp_eq_0_iff_not_bit bit_uint_iff)
qed

lemma bit_spec_pid_mask:
  assumes "q < 4" and "m < 8"
  shows "bit (spec_pid_mask dat) (8 * (3 - q) + m) \<longleftrightarrow> bit (dat ! q) m"
proof -
  consider "q = 0" | "q = 1" | "q = 2" | "q = 3"
    using assms(1) by fastforce
  then show ?thesis
    using assms(2)
    by cases (auto simp add: spec_pid_mask_def bit_simps dest: bit_imp_le_length)
qed

lemma pid_bit_spec:
  assumes "i < 32"
  shows "pid_bit dat i \<longleftrightarrow> bit (spec_pid_mask dat) (31 - i)"
proof -
  have k: "i mod 8 < 8" and q: "i div 8 < 4"
    using assms by simp_all
  have t: "pid_bit dat i \<longleftrightarrow> bit (dat ! (i div 8)) (7 - i mod 8)"
    unfolding pid_bit_def and_7_nat by (rule msb_first_test [OF k])
  have "i = 8 * (i div 8) + i mod 8"
    by simp
  then have "31 - i = 8 * (3 - i div 8) + (7 - i mod 8)"
    using k q by arith
  then show ?thesis
    using bit_spec_pid_mask [OF q, of "7 - i mod 8" dat] t by simp
qed

lemma pids_of_mask_spec:
  "pids_of_mask baseId dat =
     map (\<lambda>i. baseId + int i) (filter (\<lambda>i. bit (spec_pid_mask dat) (31 - i)) [0..<32])"
proof -
  have "filter (pid_bit dat) [0..<32] = filter (\<lambda>i. bit (spec_pid_mask dat) (31 - i)) [0..<32]"
    by (rule filter_cong) (simp_all add: pid_bit_spec)
  then show ?thesis
    by (simp add: pids_of_mask_def)
qed

lemma spec_pid_mask_all: "spec_pid_mask [0xFF, 0xFF, 0xFF, 0xFF] = - 1"
  by (simp add: spec_pid_mask_def)

lemma pids_of_mask_all: "pids_of_mask 0 [0xFF, 0xFF, 0xFF, 0xFF] = map int [0..<32]"
proof -
  have "\<And>x :: nat. 31 - x < 32"
    by arith
  then have "filter (\<lambda>i. bit (spec_pid_mask [0xFF, 0xFF, 0xFF, 0xFF]) (31 - i)) [0..<32] = [0..<32]"
    unfolding spec_pid_mask_all by (intro filter_True) (simp add: bit_simps)
  then show ?thesis
    by (simp add: pids_of_mask_spec)
qed


lemma receive_frame_tx:
  "usb_can_receive_frame s w a = Inr (r, a', w') \<Longrightarrow> tx_log w' = tx_log w"
  by (auto simp add: usb_can_receive_frame_def data_in_def Let_def memcpy_def
           split: option.splits if_splits xfer.splits)

lemma send_request:
  assumes "device_handle s = Some h"
  shows "usb_can_send_frame s w 0x7DF (Some [2, 1, pid, 0x55, 0x55, 0x55, 0x55, 0x55]) 8 =
           Inr (data_out w (obd_request pid))"
  using send_frame_open [OF assms, of 8 "[2, 1, pid, 0x55, 0x55, 0x55, 0x55, 0x55]" w "0x7DF"]
  by (simp add: obd_request_def obd_request_frame_def zero_frame_def)

lemma data_out_tx: "tx_log (snd (data_out w bytes)) = tx_log w @ [bytes]"
  by (simp add: data_out_def split: prod.splits)

lemma read_obd_pid_tx:
  assumes "device_handle s = Some h"
    and "usb_can_read_obd_pid s w pid (Some rd) (Some rl) = Inr (r, rd', rl', w')"
  shows "tx_log w' = tx_log w @ [obd_request pid]"
proof -
  obtain ret w1 where d: "data_out w (obd_request pid) = (ret, w1)"
    by (cases "data_out w (obd_request pid)") simp
  then have w1: "tx_log w1 = tx_log w @ [obd_request pid]"
    using data_out_tx [of w "obd_request pid"] by simp
  show ?thesis
  proof (cases "ret < 0")
    case True
    then show ?thesis
      using assms w1 by (simp add: usb_can_read_obd_pid_def send_request d)
  next
    case False
    note ret = this
    show ?thesis
    proof (cases "usb_can_receive_frame s w1 (obd_locals w)")
      case (Inl f)
      then show ?thesis
        using assms ret by (simp add: usb_can_read_obd_pid_def send_request d)
    next
      case (Inr x)
      then obtain r1 a1 w2 where x: "usb_can_receive_frame s w1 (obd_locals w) = Inr (r1, a1, w2)"
        by (cases x) auto
      have w2: "tx_log w2 = tx_log w @ [obd_request pid]"
        using receive_frame_tx [OF x] w1 by simp
      show ?thesis
      proof (cases "r1 < 0")
        case True
        then show ?thesis
          using assms ret w2 by (simp add: usb_can_read_obd_pid_def send_request d x)
      next
        case False
        note r1 = this
        show ?thesis
        proof (cases "usb_can_receive_frame s w2 a1")
          case (Inl f)
          then show ?thesis
            using assms ret r1 by (simp add: usb_can_read_obd_pid_def send_request d x)
        next
          case (Inr y)
          then obtain r2 a2 w3 where y: "usb_can_receive_frame s w2 a1 = Inr (r2, a2, w3)"
            by (cases y) auto
          have w3: "tx_log w3 = tx_log w @ [obd_request pid]"
            using receive_frame_tx [OF y] w2 by simp
          show ?thesis
            using assms ret r1 w3
            by (auto simp add: usb_can_read_obd_pid_def send_request d x y Let_def
                     split: if_splits option.splits sum.splits)
        qed
      qed
    qed
  qed
qed

lemma ReadObdPid_tx:
  assumes "IsConnected dev" and "device_handle s = Some h"
    and "ReadObdPid dev s w pid = Inr (r, w')"
  shows "tx_log w' = tx_log w @ [obd_request pid]"
proof (cases "usb_can_read_obd_pid s w pid (Some (replicate 8 0)) (Some 0)")
  case (Inl f)
  then show ?thesis
    using assms by (simp add: ReadObdPid_def)
next
  case (Inr x)
  then obtain res rd rl w1 where
    x: "usb_can_read_obd_pid s w pid (Some (replicate 8 0)) (Some 0) = Inr (res, rd, rl, w1)"
    by (cases x) auto
  have "w' = w1"
    using assms(1,3) by (auto simp add: ReadObdPid_def x split: if_splits option.splits)
  then show ?thesis
    using read_obd_pid_tx [OF assms(2) x] by simp
qed

lemma ReadObdPid_timeout:
  assumes "IsConnected dev" and "device_handle s = Some h"
    and "bulk_out w (length (tx_log w)) = (so, n)" and "0 \<le> so"
    and "bulk_in w (rx_count w) = Xfer st bs" and "st < 0"
  shows "ReadObdPid dev s w pid =
           Inr (None, w\<lparr>tx_log := tx_log w @ [obd_request pid], rx_count := Suc (rx_count w)\<rparr>)"
proof -
  let ?w1 = "w\<lparr>tx_log := tx_log w @ [obd_request pid]\<rparr>"
  have d: "data_out w (obd_request pid) = (int n, ?w1)"
    using assms(3,4) by (simp add: data_out_def)
  have r: "usb_can_receive_frame s ?w1 (obd_locals w) =
             Inr (st, obd_locals w, ?w1\<lparr>rx_count := Suc (rx_count ?w1)\<rparr>)"
    using receive_frame_open [OF assms(2) _ _ refl, of "obd_locals w" _ _ _ _ ?w1 st bs] assms(5,6)
    by (simp add: obd_locals_def)
  show ?thesis
    using assms(1,2,6) by (simp add: ReadObdPid_def usb_can_read_obd_pid_def send_request d r)
qed

lemma GetSupportedPids_loop_end:
  "\<not> baseId < 96 \<Longrightarrow> GetSupportedPids_loop dev s w baseId acc = Inr (acc, w)"
  by (simp add: GetSupportedPids_loop.simps)

lemma GetSupportedPids_loop_step:
  "baseId < 96 \<Longrightarrow> ReadObdPid dev s w (word_of_int baseId) = Inr (dat, w1) \<Longrightarrow>
     GetSupportedPids_loop dev s w baseId acc =
       GetSupportedPids_loop dev s w1 (baseId + 32) (acc @ pids_of_response baseId dat)"
  by (subst GetSupportedPids_loop.simps) simp

lemma GetSupportedPids_loop_fault:
  "baseId < 96 \<Longrightarrow> ReadObdPid dev s w (word_of_int baseId) = Inl f \<Longrightarrow>
     GetSupportedPids_loop dev s w baseId acc = Inl f"
  by (subst GetSupportedPids_loop.simps) simp

lemma GetSupportedPids_three:
  assumes "ReadObdPid dev s w 0x00 = Inr (r0, w1)"
    and "ReadObdPid dev s w1 0x20 = Inr (r1, w2)"
    and "ReadObdPid dev s w2 0x40 = Inr (r2, w3)"
  shows "GetSupportedPids dev s w =
           Inr (pids_of_response 0 r0 @ pids_of_response 32 r1 @ pids_of_response 64 r2, w3)"
  using assms
  by (simp add: GetSupportedPids_def GetSupportedPids_loop_step GetSupportedPids_loop_end)

lemma GetSupportedPids_queries:
  assumes "GetSupportedPids dev s w = Inr (pids, w')"
  shows "\<exists>r0 r1 r2 w1 w2.
           ReadObdPid dev s w 0x00 = Inr (r0, w1) \<and> ReadObdPid dev s w1 0x20 = Inr (r1, w2)
           \<and> ReadObdPid dev s w2 0x40 = Inr (r2, w')
           \<and> pids = pids_of_response 0 r0 @ pids_of_response 32 r1 @ pids_of_response 64 r2"
proof -
  obtain r0 w1 where a: "ReadObdPid dev s w 0x00 = Inr (r0, w1)"
    using assms
    by (cases "ReadObdPid dev s w 0x00")
       (auto simp add: GetSupportedPids_def GetSupportedPids_loop_fault [of 0, simplified])
  obtain r1 w2 where b: "ReadObdPid dev s w1 0x20 = Inr (r1, w2)"
    using assms a
    by (cases "ReadObdPid dev s w1 0x20")
       (auto simp add: GetSupportedPids_def GetSupportedPids_loop_step [of 0, simplified]
          GetSupportedPids_loop_fault [of 32, simplified])
  obtain r2 w3 where c: "ReadObdPid dev s w2 0x40 = Inr (r2, w3)"
    using assms a b
    by (cases "ReadObdPid dev s w2 0x40")
       (auto simp add: GetSupportedPids_def GetSupportedPids_loop_step [of 0, simplified]
          GetSupportedPids_loop_step [of 32, simplified]
          GetSupportedPids_loop_fault [of 64, simplified])
  show ?thesis
    using GetSupportedPids_three [OF a b c] assms a b c by auto
qed


text \<open>A wrapper that is not connected sends no query and reports no PID.\<close>

lemma GetSupportedPids_disconnected:
  "\<not> IsConnected dev \<Longrightarrow> GetSupportedPids dev s w = Inr ([], w)"
  by (simp add: GetSupportedPids_def ReadObdPid_def pids_of_response_def
        GetSupportedPids_loop_step [of 0, simplified] GetSupportedPids_loop_step [of 32, simplified]
        GetSupportedPids_loop_step [of 64, simplified] GetSupportedPids_loop_end)

text \<open>
  Claim C7, as amended. On a connected wrapper with an open device handle,
  \<open>GetSupportedPids\<close>, whenever it returns a result, has queried exactly the base PIDs
  \<open>0x00\<close>, \<open>0x20\<close> and \<open>0x40\<close>, in this order: its loop stops below 96. The result is
  the concatenation of what the three responses decode to. A response of at least four
  bytes is decoded as a big-endian 32-bit mask in which bit \<open>i\<close>, counted from the most
  significant bit of the first byte, set means that PID \<open>base + i\<close> is supported. A
  response of fewer than four bytes contributes nothing, and neither does a failed query,
  whose response is null. The response \<open>[0xFF, 0xFF, 0xFF, 0xFF]\<close> for base \<open>0x00\<close> marks
  all of the PIDs 0 to 31.
\<close>

theorem supported_pids_three_bases:
  assumes "IsConnected dev" and "device_handle s = Some h"
    and "GetSupportedPids dev s w = Inr (pids, w')"
  shows "tx_log w' = tx_log w @ [obd_request 0x00, obd_request 0x20, obd_request 0x40]
       \<and> (\<exists>r0 r1 r2 w1 w2.
             ReadObdPid dev s w 0x00 = Inr (r0, w1) \<and> ReadObdPid dev s w1 0x20 = Inr (r1, w2)
             \<and> ReadObdPid dev s w2 0x40 = Inr (r2, w')
             \<and> pids = pids_of_response 0 r0 @ pids_of_response 32 r1 @ pids_of_response 64 r2)
       \<and> (4 \<le> length d \<longrightarrow>
             pids_of_response baseId (Some d) =
               map (\<lambda>i. baseId + int i) (filter (\<lambda>i. bit (spec_pid_mask d) (31 - i)) [0..<32]))
       \<and> (length d < 4 \<longrightarrow> pids_of_response baseId (Some d) = [])
       \<and> pids_of_response baseId None = []
       \<and> pids_of_response 0 (Some [0xFF, 0xFF, 0xFF, 0xFF]) = map int [0..<32]"
proof -
  obtain r0 r1 r2 w1 w2 where
    q: "ReadObdPid dev s w 0x00 = Inr (r0, w1)" "ReadObdPid dev s w1 0x20 = Inr (r1, w2)"
       "ReadObdPid dev s w2 0x40 = Inr (r2, w')"
       "pids = pids_of_response 0 r0 @ pids_of_response 32 r1 @ pids_of_response 64 r2"
    using GetSupportedPids_queries [OF assms(3)] by blast
  have sent: "tx_log w' = tx_log w @ [obd_request 0x00, obd_request 0x20, obd_request 0x40]"
    using ReadObdPid_tx [OF assms(1,2) q(1)] ReadObdPid_tx [OF assms(1,2) q(2)]
      ReadObdPid_tx [OF assms(1,2) q(3)]
    by simp
  have long: "4 \<le> length d \<longrightarrow>
             pids_of_response baseId (Some d) =
               map (\<lambda>i. baseId + int i) (filter (\<lambda>i. bit (spec_pid_mask d) (31 - i)) [0..<32])"
    by (simp add: pids_of_response_def pids_of_mask_spec)
  have short: "length d < 4 \<longrightarrow> pids_of_response baseId (Some d) = []"
    by (simp add: pids_of_response_def)
  have failed: "pids_of_response baseId None = []"
    by (simp add: pids_of_response_def)
  have full: "pids_of_response 0 (Some [0xFF, 0xFF, 0xFF, 0xFF]) = map int [0..<32]"
    by (simp add: pids_of_response_def pids_of_mask_all)
  show ?thesis
    using q sent long short failed full by blast
qed

lemma stub_then_timeouts:
  assumes "length bytes = 8" and "dlc \<le> 8"
    and "3 \<le> dlc" and "bytes ! 1 = 0x41" and "bytes ! 2 = 0"
  shows "GetSupportedPids dev_connected s_open (stub_world (obd_request_frame 0x00) (response_frame dlc bytes)) =
           Inr (pids_of_response 0 (Some (take (unat dlc - 3) (drop 3 bytes))),
                stub_world (obd_request_frame 0x00) (response_frame dlc bytes)
                  \<lparr>tx_log := [obd_request 0x00, obd_request 0x20, obd_request 0x40],
                    rx_count := 4\<rparr>)"
proof -
  let ?w = "stub_world (obd_request_frame 0x00) (response_frame dlc bytes)"
  let ?w1 = "?w\<lparr>tx_log := [obd_request 0x00], rx_count := 2\<rparr>"
  let ?w2 = "?w1\<lparr>tx_log := tx_log ?w1 @ [obd_request 0x20], rx_count := Suc (rx_count ?w1)\<rparr>"
  let ?w3 = "?w2\<lparr>tx_log := tx_log ?w2 @ [obd_request 0x40], rx_count := Suc (rx_count ?w2)\<rparr>"
  have c: "IsConnected dev_connected" and h: "device_handle s_open = Some 1"
    by (simp_all add: dev_connected_def s_open_def)
  have z: "(0::int) \<le> 0" and m: "(-7::int) < 0"
    by simp_all
  have a: "ReadObdPid dev_connected s_open ?w 0x00 = Inr (Some (take (unat dlc - 3) (drop 3 bytes)), ?w1)"
    using ReadObdPid_stub [OF assms(1,2), of 0] assms(3-5) by simp
  have b: "ReadObdPid dev_connected s_open ?w1 0x20 = Inr (None, ?w2)"
    by (rule ReadObdPid_timeout [OF c h _ z _ m]) (simp_all add: stub_world_def idle_world_def)
  have d: "ReadObdPid dev_connected s_open ?w2 0x40 = Inr (None, ?w3)"
    by (rule ReadObdPid_timeout [OF c h _ z _ m]) (simp_all add: stub_world_def idle_world_def)
  show ?thesis
    using GetSupportedPids_three [OF a b d]
    by (simp add: pids_of_response_def)
qed

lemma mask_example:
  "filter (\<lambda>i. bit (spec_pid_mask [0x80, 0x10, 0, 1]) (31 - i)) [0..<32] = [0, 11, 31]"
  by code_simp

theorem supported_pids_three_bases_witness:
  "GetSupportedPids dev_connected s_open all_pids_world =
     Inr (map int [0..<32],
          all_pids_world\<lparr>tx_log := [obd_request 0x00, obd_request 0x20, obd_request 0x40],
                         rx_count := 4\<rparr>)
   \<and> tx_log (all_pids_world\<lparr>tx_log := [obd_request 0x00, obd_request 0x20, obd_request 0x40],
                              rx_count := 4\<rparr>)
       = tx_log all_pids_world @ [obd_request 0x00, obd_request 0x20, obd_request 0x40]
   \<and> pids_of_response 32 (Some [0x80, 0x10, 0, 1]) = [32, 43, 63]
   \<and> pids_of_response 32 (Some [0xFF, 0xFF, 0xFF]) = []"
proof -
  have c: "IsConnected dev_connected" and h: "device_handle s_open = Some 1"
    by (simp_all add: dev_connected_def s_open_def)
  have e: "GetSupportedPids dev_connected s_open all_pids_world =
     Inr (map int [0..<32],
          all_pids_world\<lparr>tx_log := [obd_request 0x00, obd_request 0x20, obd_request 0x40],
                         rx_count := 4\<rparr>)"
    unfolding all_pids_world_def
    using stub_then_timeouts [of "[0x06, 0x41, 0x00, 0xFF, 0xFF, 0xFF, 0xFF, 0]" 7]
    by (simp add: pids_of_response_def pids_of_mask_all)
  have l: "4 \<le> length [0x80, 0x10, 0, 1 :: u8]" and k: "length [0xFF, 0xFF, 0xFF :: u8] < 4"
    by simp_all
  show ?thesis
    using supported_pids_three_bases [OF c h e, of "[0x80, 0x10, 0, 1]" 32] l
      supported_pids_three_bases [OF c h e, of "[0xFF, 0xFF, 0xFF]" 32] k e
    by (simp add: mask_example)
qed

text \<open>
  Claim C7 as stated fails: the operation sends three requests, for the base PIDs
  \<open>0x00\<close>, \<open>0x20\<close> and \<open>0x40\<close>, and returns; \<open>0x60\<close>, \<open>0x80\<close> and \<open>0xA0\<close> are never
  queried.
\<close>

theorem supported_pids_six_bases_counterexample:
  "GetSupportedPids dev_connected s_open idle_world =
     Inr ([], idle_world\<lparr>tx_log := [obd_request 0x00, obd_request 0x20, obd_request 0x40],
                         rx_count := 3\<rparr>)"
proof -
  let ?w1 = "idle_world\<lparr>tx_log := tx_log idle_world @ [obd_request 0x00], rx_count := Suc (rx_count idle_world)\<rparr>"
  let ?w2 = "?w1\<lparr>tx_log := tx_log ?w1 @ [obd_request 0x20], rx_count := Suc (rx_count ?w1)\<rparr>"
  let ?w3 = "?w2\<lparr>tx_log := tx_log ?w2 @ [obd_request 0x40], rx_count := Suc (rx_count ?w2)\<rparr>"
  have c: "IsConnected dev_connected" and h: "device_handle s_open = Some 1"
    by (simp_all add: dev_connected_def s_open_def)
  have z: "(0::int) \<le> 0" and m: "(-7::int) < 0"
    by simp_all
  have a: "ReadObdPid dev_connected s_open idle_world 0x00 = Inr (None, ?w1)"
    by (rule ReadObdPid_timeout [OF c h _ z _ m]) (simp_all add: idle_world_def)
  have b: "ReadObdPid dev_connected s_open ?w1 0x20 = Inr (None, ?w2)"
    by (rule ReadObdPid_timeout [OF c h _ z _ m]) (simp_all add: idle_world_def)
  have d: "ReadObdPid dev_connected s_open ?w2 0x40 = Inr (None, ?w3)"
    by (rule ReadObdPid_timeout [OF c h _ z _ m]) (simp_all add: idle_world_def)
  show ?thesis
    using GetSupportedPids_three [OF a b d]
    by (simp add: pids_of_response_def idle_world_def)
qed

end
